theory Spec2Isabelle
  imports Complex_Main
begin

section \<open>Graph tensors of the host framework\<close>

text \<open>
  The module under verification (\<^verbatim>\<open>dynamic_distraction_simple_soft.py\<close>) builds a
  computation graph: every operator of the host framework that it calls adds a node and
  hands back a symbolic tensor. A tensor is therefore modelled by the expression that
  built it. The Python code of the module (its checks, loops and list handling) is
  embedded as HOL functions that return such expressions, or an exception.
\<close>

datatype error =
    ValueError string
  | TypeError string
  | IndexError string
  | AssertionError

datatype dtype = Float32 | Int32

text \<open>A variable object of the framework's variable store: its identity and its full name.\<close>

datatype variable = Variable nat string

datatype tensor =
    Placeholder string
  | Var variable
  | IntC int
  | FloatC real
  | PyNone
  | Reshape tensor "tensor list"
  | SparseSoftmaxCE tensor tensor
  | Mul tensor tensor
  | Add tensor tensor
  | Sub tensor tensor
  | Div tensor tensor
  | AddN "tensor list"
  | ReduceSum tensor "nat list option"
  | ShapeOf tensor
  | Index tensor nat
  | Cast tensor dtype
  | MatMul tensor tensor
  | Transpose tensor
  | Sigmoid tensor
  | Tanh tensor
  | Softmax tensor
  | Conv2d tensor tensor
  | Concat nat "tensor list"
  | Pack "tensor list"
  | Zeros tensor dtype
  | Argmax tensor nat
  | EmbeddingLookup tensor tensor
  | XwPlusB tensor tensor tensor
  | StopGradient tensor

text \<open>
  \<^verbatim>\<open>math_ops.add_n\<close> is the one operator used here whose argument is a Python list that
  the module may leave empty. The framework rejects an empty list with a
  \<^verbatim>\<open>ValueError\<close> (the operator takes at least one tensor), so this is kept as a branch.
\<close>

definition add_n :: "tensor list \<Rightarrow> error + tensor" where
  "add_n inputs =
     (if inputs = [] then Inl (ValueError ''inputs must be a list of at least one Tensor'')
      else Inr (AddN inputs))"

section \<open>Sequence losses\<close>

text \<open>The literal \<^verbatim>\<open>1e-12\<close> of \<^verbatim>\<open>sequence_loss_by_example\<close>.\<close>

definition loss_eps :: real where
  "loss_eps = 1 / 10 ^ 12"

text \<open>
  The cross-entropy of one time step: the standard sparse softmax cross-entropy on the
  flattened target, or the caller's \<^verbatim>\<open>softmax_loss_function\<close>.
\<close>

definition crossent :: "(tensor \<Rightarrow> tensor \<Rightarrow> tensor) option \<Rightarrow> tensor \<Rightarrow> tensor \<Rightarrow> tensor" where
  "crossent softmax_loss_function logit target =
     (case softmax_loss_function of
        None \<Rightarrow> SparseSoftmaxCE logit (Reshape target [IntC (- 1)])
      | Some f \<Rightarrow> f logit target)"

text \<open>
  The loop \<^verbatim>\<open>for logit, target, weight in zip(logits, targets, weights)\<close>, appending to
  \<^verbatim>\<open>log_perp_list\<close>.
\<close>

fun log_perp_loop ::
  "(tensor \<Rightarrow> tensor \<Rightarrow> tensor) option \<Rightarrow> (tensor \<times> tensor \<times> tensor) list \<Rightarrow> tensor list
     \<Rightarrow> tensor list" where
  "log_perp_loop slf [] log_perp_list = log_perp_list"
| "log_perp_loop slf ((logit, target, weight) # rest) log_perp_list =
     log_perp_loop slf rest (log_perp_list @ [Mul (crossent slf logit target) weight])"

definition sequence_loss_by_example ::
  "tensor list \<Rightarrow> tensor list \<Rightarrow> tensor list \<Rightarrow> bool \<Rightarrow> (tensor \<Rightarrow> tensor \<Rightarrow> tensor) option
     \<Rightarrow> error + tensor" where
  "sequence_loss_by_example logits targets weights average_across_timesteps slf =
     (if length targets \<noteq> length logits \<or> length weights \<noteq> length logits
      then Inl (ValueError ''Lengths of logits, weights, and targets must be the same'')
      else
        (case add_n (log_perp_loop slf (zip logits (zip targets weights)) []) of
           Inl e \<Rightarrow> Inl e
         | Inr log_perps \<Rightarrow>
             if average_across_timesteps
             then (case add_n weights of
                     Inl e \<Rightarrow> Inl e
                   | Inr total_size \<Rightarrow> Inr (Div log_perps (Add total_size (FloatC loss_eps))))
             else Inr log_perps))"

text \<open>Python's \<^verbatim>\<open>xs[0]\<close>: an \<^verbatim>\<open>IndexError\<close> on the empty list.\<close>

definition first_item :: "'a list \<Rightarrow> error + 'a" where
  "first_item xs = (case xs of [] \<Rightarrow> Inl (IndexError ''list index out of range'') | x # _ \<Rightarrow> Inr x)"

definition sequence_loss ::
  "tensor list \<Rightarrow> tensor list \<Rightarrow> tensor list \<Rightarrow> bool \<Rightarrow> bool \<Rightarrow> (tensor \<Rightarrow> tensor \<Rightarrow> tensor) option
     \<Rightarrow> error + tensor" where
  "sequence_loss logits targets weights average_across_timesteps average_across_batch slf =
     (case sequence_loss_by_example logits targets weights average_across_timesteps slf of
        Inl e \<Rightarrow> Inl e
      | Inr per_example \<Rightarrow>
          (let cost = ReduceSum per_example None in
           if average_across_batch
           then (case first_item targets of
                   Inl e \<Rightarrow> Inl e
                 | Inr target0 \<Rightarrow>
                     (let batch_size = Index (ShapeOf target0) 0
                      in Inr (Div cost (Cast batch_size Float32))))
           else Inr cost))"

section \<open>Values of graph tensors over the reals\<close>

text \<open>
  What a graph computes when it is run, for the arithmetic operators this module
  composes itself: tensors of rank 0, 1 and 2 over the reals (the rounding of 32-bit
  floats is not modelled). Operators whose value the framework alone defines (softmax,
  convolution, the cross-entropy, placeholders, variables, ...) take their value from an
  environment \<open>\<rho>\<close>. A division is defined only where no denominator is zero.
\<close>

datatype val = Sc real | Vec "real list" | Mat "real list list"

fun shape_of :: "val \<Rightarrow> nat list" where
  "shape_of (Sc x) = []"
| "shape_of (Vec xs) = [length xs]"
| "shape_of (Mat m) = [length m, (case m of [] \<Rightarrow> 0 | r # _ \<Rightarrow> length r)]"

text \<open>Elementwise operators broadcast: a dimension of size one is stretched.\<close>

definition vbop :: "(real \<Rightarrow> real \<Rightarrow> real) \<Rightarrow> real list \<Rightarrow> real list \<Rightarrow> real list option" where
  "vbop f xs ys =
     (if length xs = length ys then Some (map2 f xs ys)
      else if length xs = 1 then Some (map (f (hd xs)) ys)
      else if length ys = 1 then Some (map (\<lambda>x. f x (hd ys)) xs)
      else None)"

definition mbop ::
  "(real \<Rightarrow> real \<Rightarrow> real) \<Rightarrow> real list list \<Rightarrow> real list list \<Rightarrow> real list list option" where
  "mbop f a b =
     (if length a = length b then those (map2 (vbop f) a b)
      else if length a = 1 then those (map (vbop f (hd a)) b)
      else if length b = 1 then those (map (\<lambda>r. vbop f r (hd b)) a)
      else None)"

fun bop :: "(real \<Rightarrow> real \<Rightarrow> real) \<Rightarrow> val \<Rightarrow> val \<Rightarrow> val option" where
  "bop f (Sc x) (Sc y) = Some (Sc (f x y))"
| "bop f (Sc x) (Vec ys) = Some (Vec (map (f x) ys))"
| "bop f (Vec xs) (Sc y) = Some (Vec (map (\<lambda>x. f x y) xs))"
| "bop f (Sc x) (Mat m) = Some (Mat (map (map (f x)) m))"
| "bop f (Mat m) (Sc y) = Some (Mat (map (map (\<lambda>x. f x y)) m))"
| "bop f (Vec xs) (Vec ys) = map_option Vec (vbop f xs ys)"
| "bop f (Mat m) (Vec ys) = map_option Mat (those (map (\<lambda>r. vbop f r ys) m))"
| "bop f (Vec xs) (Mat m) = map_option Mat (those (map (\<lambda>r. vbop f xs r) m))"
| "bop f (Mat a) (Mat b) = map_option Mat (mbop f a b)"

fun has_zero :: "val \<Rightarrow> bool" where
  "has_zero (Sc x) = (x = 0)"
| "has_zero (Vec xs) = (0 \<in> set xs)"
| "has_zero (Mat m) = (0 \<in> set (concat m))"

definition val_div :: "val \<Rightarrow> val \<Rightarrow> val option" where
  "val_div a b = (if has_zero b then None else bop (/) a b)"

text \<open>\<^verbatim>\<open>add_n\<close>: the sum of one or more tensors of one shape.\<close>

fun val_add_n :: "val option list \<Rightarrow> val option" where
  "val_add_n [] = None"
| "val_add_n [v] = v"
| "val_add_n (v # vs) =
     (case v of
        None \<Rightarrow> None
      | Some a \<Rightarrow>
          (case val_add_n vs of
             None \<Rightarrow> None
           | Some b \<Rightarrow> if shape_of a = shape_of b then bop (+) a b else None))"

fun val_reduce_sum :: "val \<Rightarrow> nat list option \<Rightarrow> val option" where
  "val_reduce_sum (Sc x) None = Some (Sc x)"
| "val_reduce_sum (Vec xs) None = Some (Sc (sum_list xs))"
| "val_reduce_sum (Mat m) None = Some (Sc (sum_list (concat m)))"
| "val_reduce_sum (Vec xs) (Some axes) = (if axes = [0] then Some (Sc (sum_list xs)) else None)"
| "val_reduce_sum (Mat m) (Some axes) = (if axes = [1] then Some (Vec (map sum_list m)) else None)"
| "val_reduce_sum (Sc x) (Some axes) = None"

fun val_index :: "val \<Rightarrow> nat \<Rightarrow> val option" where
  "val_index (Sc x) i = None"
| "val_index (Vec xs) i = (if i < length xs then Some (Sc (xs ! i)) else None)"
| "val_index (Mat m) i = (if i < length m then Some (Vec (m ! i)) else None)"

definition dot :: "real list \<Rightarrow> real list \<Rightarrow> real" where
  "dot xs ys = sum_list (map2 (*) xs ys)"

definition rectangular :: "nat \<Rightarrow> nat \<Rightarrow> real list list \<Rightarrow> bool" where
  "rectangular r c m = (length m = r \<and> list_all (\<lambda>row. length row = c) m)"

fun val_matmul :: "val \<Rightarrow> val \<Rightarrow> val option" where
  "val_matmul (Mat a) (Mat b) =
     (if list_all (\<lambda>row. length row = length b) a
           \<and> rectangular (length b) (case b of [] \<Rightarrow> 0 | r # _ \<Rightarrow> length r) b
      then Some (Mat (map (\<lambda>row. map (dot row) (transpose b)) a))
      else None)"
| "val_matmul _ _ = None"

fun val_transpose :: "val \<Rightarrow> val option" where
  "val_transpose (Mat m) = Some (Mat (transpose m))"
| "val_transpose _ = None"

definition sigmoid :: "real \<Rightarrow> real" where
  "sigmoid x = 1 / (1 + exp (- x))"

fun val_map :: "(real \<Rightarrow> real) \<Rightarrow> val \<Rightarrow> val" where
  "val_map f (Sc x) = Sc (f x)"
| "val_map f (Vec xs) = Vec (map f xs)"
| "val_map f (Mat m) = Mat (map (map f) m)"

definition opt2 :: "('a \<Rightarrow> 'b \<Rightarrow> 'c option) \<Rightarrow> 'a option \<Rightarrow> 'b option \<Rightarrow> 'c option" where
  "opt2 f a b = (case a of None \<Rightarrow> None | Some x \<Rightarrow> (case b of None \<Rightarrow> None | Some y \<Rightarrow> f x y))"

fun eval :: "(tensor \<Rightarrow> val option) \<Rightarrow> tensor \<Rightarrow> val option" where
  "eval \<rho> (FloatC c) = Some (Sc c)"
| "eval \<rho> (IntC i) = Some (Sc (real_of_int i))"
| "eval \<rho> (Add a b) = opt2 (bop (+)) (eval \<rho> a) (eval \<rho> b)"
| "eval \<rho> (Sub a b) = opt2 (bop (-)) (eval \<rho> a) (eval \<rho> b)"
| "eval \<rho> (Mul a b) = opt2 (bop (*)) (eval \<rho> a) (eval \<rho> b)"
| "eval \<rho> (Div a b) = opt2 val_div (eval \<rho> a) (eval \<rho> b)"
| "eval \<rho> (AddN ts) = val_add_n (map (eval \<rho>) ts)"
| "eval \<rho> (ReduceSum t axes) = Option.bind (eval \<rho> t) (\<lambda>v. val_reduce_sum v axes)"
| "eval \<rho> (ShapeOf t) = map_option (\<lambda>v. Vec (map real (shape_of v))) (eval \<rho> t)"
| "eval \<rho> (Index t i) = Option.bind (eval \<rho> t) (\<lambda>v. val_index v i)"
| "eval \<rho> (Cast t d) = eval \<rho> t"
| "eval \<rho> (MatMul a b) = opt2 val_matmul (eval \<rho> a) (eval \<rho> b)"
| "eval \<rho> (Transpose t) = Option.bind (eval \<rho> t) val_transpose"
| "eval \<rho> (Sigmoid t) = map_option (val_map sigmoid) (eval \<rho> t)"
| "eval \<rho> t = \<rho> t"

text \<open>Column sums of a list of equally long vectors: the value of \<^verbatim>\<open>add_n\<close> on vectors.\<close>

definition col_sums :: "nat \<Rightarrow> real list list \<Rightarrow> real list" where
  "col_sums B vs = map (\<lambda>b. \<Sum>t<length vs. vs ! t ! b) [0..<B]"

text \<open>A small environment for running the loss graphs on concrete data.\<close>

definition example_env :: "tensor \<Rightarrow> val option" where
  "example_env t =
     (if t = SparseSoftmaxCE (Placeholder ''logit0'') (Reshape (Placeholder ''target0'') [IntC (- 1)])
      then Some (Vec [1, 2])
      else if t = SparseSoftmaxCE (Placeholder ''logit1'') (Reshape (Placeholder ''target1'') [IntC (- 1)])
      then Some (Vec [3, 4])
      else if t = Placeholder ''weight0'' then Some (Vec [1, 1])
      else if t = Placeholder ''weight1'' then Some (Vec [1, 0])
      else if t = Placeholder ''target0'' then Some (Vec [5, 7])
      else if t = Placeholder ''target1'' then Some (Vec [6, 8])
      else None)"

section \<open>The variable store and variable scopes of the framework\<close>

text \<open>
  \<^verbatim>\<open>variable_scope.get_variable\<close> keeps one variable object per full name. In a scope
  whose \<^verbatim>\<open>reuse\<close> flag is off it creates the variable and fails if the name is taken;
  with the flag on it hands back the existing object and fails if there is none. (The
  shape, dtype and initializer arguments are not modelled.) The state also records, in
  order, every object that \<^verbatim>\<open>get_variable\<close> handed out.
\<close>

record vs_state =
  store :: "(string \<times> variable) list"
  scope_name :: string
  reuse :: bool
  fetched :: "variable list"

type_synonym 'a scoped = "vs_state \<Rightarrow> (error + 'a) \<times> vs_state"

definition return :: "'a \<Rightarrow> 'a scoped" where
  "return x s = (Inr x, s)"

definition raise :: "error \<Rightarrow> 'a scoped" where
  "raise e s = (Inl e, s)"

definition lift :: "error + 'a \<Rightarrow> 'a scoped" where
  "lift r s = (r, s)"

definition bindS :: "'a scoped \<Rightarrow> ('a \<Rightarrow> 'b scoped) \<Rightarrow> 'b scoped" where
  "bindS m f s = (case m s of (Inl e, s') \<Rightarrow> (Inl e, s') | (Inr x, s') \<Rightarrow> f x s')"

text \<open>A \<^verbatim>\<open>for\<close> loop that appends one result per item.\<close>

fun mapM :: "('a \<Rightarrow> 'b scoped) \<Rightarrow> 'a list \<Rightarrow> 'b list scoped" where
  "mapM f [] = return []"
| "mapM f (x # xs) = bindS (f x) (\<lambda>y. bindS (mapM f xs) (\<lambda>ys. return (y # ys)))"

text \<open>\<^verbatim>\<open>try: body except ValueError: handler\<close>.\<close>

definition except_ValueError :: "'a scoped \<Rightarrow> 'a scoped \<Rightarrow> 'a scoped" where
  "except_ValueError body handler s =
     (case body s of
        (Inl (ValueError m), s') \<Rightarrow> handler s'
      | other \<Rightarrow> other)"

definition full_name :: "string \<Rightarrow> string \<Rightarrow> string" where
  "full_name scope name = (if scope = [] then name else scope @ ''/'' @ name)"

definition get_variable :: "string \<Rightarrow> variable scoped" where
  "get_variable name s =
     (let full = full_name (scope_name s) name in
      case map_of (store s) full of
        Some v \<Rightarrow>
          if reuse s then (Inr v, s\<lparr>fetched := fetched s @ [v]\<rparr>)
          else (Inl (ValueError ''Variable already exists, disallowed''), s)
      | None \<Rightarrow>
          if reuse s then (Inl (ValueError ''Variable does not exist, disallowed''), s)
          else (let v = Variable (length (store s)) full
                in (Inr v, s\<lparr>store := store s @ [(full, v)], fetched := fetched s @ [v]\<rparr>)))"

definition get_variables :: "string list \<Rightarrow> variable list scoped" where
  "get_variables names = mapM get_variable names"

text \<open>
  \<^verbatim>\<open>with variable_scope(name_or_scope, reuse=...)\<close>: a string opens a sub-scope of the
  current one, which inherits \<^verbatim>\<open>reuse\<close>; a scope object is re-entered under its own
  name with its own flag. Leaving the block restores the scope that was current.
\<close>

datatype scope_arg = ScopeName string | ScopeObject string bool

definition variable_scope :: "scope_arg \<Rightarrow> bool option \<Rightarrow> 'a scoped \<Rightarrow> 'a scoped" where
  "variable_scope name_or_scope reuse_arg body s =
     (let inner =
        (case name_or_scope of
           ScopeName n \<Rightarrow>
             s\<lparr>scope_name := full_name (scope_name s) n, reuse := (reuse_arg = Some True \<or> reuse s)\<rparr>
         | ScopeObject n r \<Rightarrow>
             s\<lparr>scope_name := n, reuse := (case reuse_arg of None \<Rightarrow> r | Some b \<Rightarrow> b)\<rparr>);
          (res, s') = body inner
      in (res, s'\<lparr>scope_name := scope_name s, reuse := reuse s\<rparr>))"

text \<open>\<^verbatim>\<open>with variable_scope(get_variable_scope(), reuse=...)\<close>, and the same for the scope
  object \<^verbatim>\<open>scope\<close> that the decoder's own \<^verbatim>\<open>with\<close> block bound and is still inside.\<close>

definition current_scope :: "bool option \<Rightarrow> 'a scoped \<Rightarrow> 'a scoped" where
  "current_scope reuse_arg body s =
     variable_scope (ScopeObject (scope_name s) (reuse s)) reuse_arg body s"

definition reuse_variables :: "unit scoped" where
  "reuse_variables s = (Inr (), s\<lparr>reuse := True\<rparr>)"

text \<open>\<^verbatim>\<open>"Attention_%d" % a\<close>.\<close>

fun string_of_nat :: "nat \<Rightarrow> string" where
  "string_of_nat n =
     (if n < 10 then [''0123456789'' ! n]
      else string_of_nat (n div 10) @ [''0123456789'' ! (n mod 10)])"

declare string_of_nat.simps [simp del]

section \<open>The attention decoder with the distraction gate\<close>

text \<open>
  What the module takes from outside: the framework's static shape inference
  (\<^verbatim>\<open>get_shape\<close>) and the helper \<^verbatim>\<open>linear\<close> of \<^verbatim>\<open>rnn_cell\<close>, and the RNN cell
  the caller passes. \<^verbatim>\<open>linear\<close> and the cell obtain their parameters from
  \<^verbatim>\<open>get_variable\<close> under fixed names and build their output from them.
\<close>

record framework =
  static_shape :: "tensor \<Rightarrow> nat option list option"
  linear_vars :: "string list"
  linear_build :: "variable list \<Rightarrow> tensor list \<Rightarrow> tensor \<Rightarrow> tensor"

record rnn_cell =
  cell_output_size :: nat
  cell_vars :: "string list"
  cell_call :: "variable list \<Rightarrow> tensor \<Rightarrow> tensor \<Rightarrow> tensor \<times> tensor"

definition linear :: "framework \<Rightarrow> tensor list \<Rightarrow> tensor \<Rightarrow> tensor scoped" where
  "linear fw args out_size =
     bindS (get_variables (linear_vars fw)) (\<lambda>vs. return (linear_build fw vs args out_size))"

definition call_cell :: "rnn_cell \<Rightarrow> tensor \<Rightarrow> tensor \<Rightarrow> (tensor \<times> tensor) scoped" where
  "call_cell cell x st =
     bindS (get_variables (cell_vars cell)) (\<lambda>vs. return (cell_call cell vs x st))"

text \<open>\<^verbatim>\<open>t.get_shape()[i].value\<close>: a shape of unknown rank answers \<^verbatim>\<open>None\<close> at every
  index; a known shape is a Python list.\<close>

definition dim_value :: "nat option list option \<Rightarrow> nat \<Rightarrow> error + nat option" where
  "dim_value sh i =
     (case sh of
        None \<Rightarrow> Inr None
      | Some ds \<Rightarrow> if i < length ds then Inr (ds ! i)
                  else Inl (IndexError ''list index out of range''))"

text \<open>\<^verbatim>\<open>inp.get_shape().with_rank(2)[1]\<close>: \<^verbatim>\<open>with_rank\<close> raises \<^verbatim>\<open>ValueError\<close> on a
  shape whose known rank is not 2.\<close>

definition input_size :: "nat option list option \<Rightarrow> error + nat option" where
  "input_size sh =
     (case sh of
        None \<Rightarrow> Inr None
      | Some ds \<Rightarrow> if length ds = 2 then Inr (ds ! 1)
                  else Inl (ValueError ''Shape must have rank 2''))"

text \<open>A Python dimension (an \<^verbatim>\<open>int\<close> or \<^verbatim>\<open>None\<close>) as an element of a shape list.\<close>

definition dim_tensor :: "nat option \<Rightarrow> tensor" where
  "dim_tensor d = (case d of None \<Rightarrow> PyNone | Some n \<Rightarrow> IntC (int n))"

text \<open>The literal \<^verbatim>\<open>eps = 0.00000000000001\<close> of the gate.\<close>

definition distract_eps :: real where
  "distract_eps = 1 / 10 ^ 14"

text \<open>The gate of the loop body, for \<^verbatim>\<open>prev_attn\<close> that is not \<^verbatim>\<open>None\<close>.\<close>

definition gate_temp :: "tensor \<Rightarrow> tensor \<Rightarrow> tensor" where
  "gate_temp a prev_attn =
     Div (ReduceSum (Mul a prev_attn) (Some [1]))
         (Add (ReduceSum (Mul prev_attn prev_attn) (Some [1])) (FloatC distract_eps))"

definition distract :: "tensor \<Rightarrow> tensor \<Rightarrow> tensor \<Rightarrow> tensor \<Rightarrow> tensor" where
  "distract a prev_attn gate_weight gate_bias =
     (let temp = gate_temp a prev_attn;
          gate = Add (MatMul prev_attn gate_weight) gate_bias;
          sig_gate = Sigmoid (Transpose gate);
          temp1 = Transpose (Mul sig_gate temp)
      in Sub a (Mul prev_attn temp1))"

text \<open>The variables of the enclosing function that the nested functions and the loop
  body read.\<close>

record decoder_ctx =
  fw :: framework
  cell :: rnn_cell
  num_heads :: nat
  loop_function :: "(tensor \<Rightarrow> nat \<Rightarrow> tensor) option"
  initial_state_attention :: bool
  output_size :: nat
  attn_length_state :: tensor
  attn_length_query :: tensor
  attn_size_state :: nat
  attn_size_query :: "nat option"
  hidden_states :: tensor
  hidden_states_query :: tensor
  hidden_features_states :: "tensor list"
  hidden_features_query :: "tensor list"
  v_state :: "tensor list"
  v_query :: "tensor list"
  gate_weight :: tensor
  gate_bias :: tensor

text \<open>Python's \<^verbatim>\<open>xs[i]\<close>.\<close>

definition item :: "'a list \<Rightarrow> nat \<Rightarrow> error + 'a" where
  "item xs i = (if i < length xs then Inr (xs ! i) else Inl (IndexError ''list index out of range''))"

text \<open>
  \<^verbatim>\<open>for q in query_list: ndims = q.get_shape().ndims; if ndims: assert ndims == 2\<close>.
  The test \<^verbatim>\<open>if ndims\<close> lets an unknown rank and rank 0 pass.
\<close>

definition ndims_ok :: "framework \<Rightarrow> tensor \<Rightarrow> bool" where
  "ndims_ok f q =
     (case static_shape f q of
        None \<Rightarrow> True
      | Some ds \<Rightarrow> length ds = 0 \<or> length ds = 2)"

definition check_ndims :: "framework \<Rightarrow> tensor list \<Rightarrow> unit scoped" where
  "check_ndims f query_list =
     (if list_all (ndims_ok f) query_list then return () else raise AssertionError)"

text \<open>
  The nested function \<^verbatim>\<open>attention(query)\<close>, called with the list
  \<^verbatim>\<open>[state, attns_query]\<close>: one read of the encoder states per head.
\<close>

definition attention_head :: "decoder_ctx \<Rightarrow> tensor \<Rightarrow> nat \<Rightarrow> tensor scoped" where
  "attention_head c query a =
     variable_scope (ScopeName (''Attention_'' @ string_of_nat a)) None
       (bindS (linear (fw c) [query] (IntC (int (attn_size_state c)))) (\<lambda>y0.
        bindS (lift (item (v_state c) a)) (\<lambda>v.
        bindS (lift (item (hidden_features_states c) a)) (\<lambda>hf.
        (let y = Reshape y0 [IntC (- 1), IntC 1, IntC 1, IntC (int (attn_size_state c))];
             s = ReduceSum (Mul v (Tanh (Add hf y))) (Some [2, 3]);
             a' = Softmax s;
             d = ReduceSum
                   (Mul (Reshape a' [IntC (- 1), attn_length_state c, IntC 1, IntC 1])
                        (hidden_states c))
                   (Some [1, 2])
         in return (Reshape d [IntC (- 1), IntC (int (attn_size_state c))]))))))"

definition attention :: "decoder_ctx \<Rightarrow> tensor list \<Rightarrow> tensor list scoped" where
  "attention c query_list =
     bindS (check_ndims (fw c) query_list) (\<lambda>_.
       mapM (attention_head c (Concat 1 query_list)) [0..<num_heads c])"

text \<open>The nested function \<^verbatim>\<open>attention_query(query)\<close>, called with a single tensor; it
  returns the read of the first head only.\<close>

definition attention_query_head :: "decoder_ctx \<Rightarrow> tensor \<Rightarrow> nat \<Rightarrow> tensor scoped" where
  "attention_query_head c query a =
     variable_scope (ScopeName (''Attention_Query_'' @ string_of_nat a)) None
       (bindS (linear (fw c) [query] (dim_tensor (attn_size_query c))) (\<lambda>y0.
        bindS (lift (item (v_query c) a)) (\<lambda>v.
        bindS (lift (item (hidden_features_query c) a)) (\<lambda>hf.
        (let y = Reshape y0 [IntC (- 1), IntC 1, IntC 1, dim_tensor (attn_size_query c)];
             s = ReduceSum (Mul v (Tanh (Add hf y))) (Some [2, 3]);
             a' = Softmax s;
             d = ReduceSum
                   (Mul (Reshape a' [IntC (- 1), attn_length_query c, IntC 1, IntC 1])
                        (hidden_states_query c))
                   (Some [1, 2])
         in return (Reshape d [IntC (- 1), dim_tensor (attn_size_query c)]))))))"

definition attention_query :: "decoder_ctx \<Rightarrow> tensor \<Rightarrow> tensor scoped" where
  "attention_query c query =
     bindS (mapM (attention_query_head c query) [0..<num_heads c]) (\<lambda>ds. lift (item ds 0))"

text \<open>\<^verbatim>\<open>attns_query = attention_query(state); attns_state = attention([state, attns_query])\<close>.\<close>

definition attend :: "decoder_ctx \<Rightarrow> tensor \<Rightarrow> tensor list scoped" where
  "attend c st =
     bindS (attention_query c st) (\<lambda>attns_query. attention c [st, attns_query])"

text \<open>The local variables that one iteration of the decoding loop hands to the next.\<close>

record loop_state =
  outputs :: "tensor list"
  prev :: "tensor option"
  prev_attn :: "tensor option"
  attns_state :: "tensor list"
  state :: tensor
  cell_input :: "tensor option"

text \<open>The input of step \<open>i\<close>: \<^verbatim>\<open>decoder_inputs[i]\<close>, or \<^verbatim>\<open>loop_function(prev, i)\<close> when a
  loop function is set and a previous output exists.\<close>

definition step_input :: "decoder_ctx \<Rightarrow> nat \<Rightarrow> tensor \<Rightarrow> loop_state \<Rightarrow> tensor" where
  "step_input c i inp ls =
     (case loop_function c of
        None \<Rightarrow> inp
      | Some f \<Rightarrow> (case prev ls of None \<Rightarrow> inp | Some p \<Rightarrow> f p i))"

text \<open>\<^verbatim>\<open>if loop_function is not None and prev is not None: inp = loop_function(prev, i)\<close>,
  inside its \<^verbatim>\<open>variable_scope("loop_function", reuse=True)\<close>.\<close>

definition next_input :: "decoder_ctx \<Rightarrow> nat \<Rightarrow> tensor \<Rightarrow> loop_state \<Rightarrow> tensor scoped" where
  "next_input c i inp ls =
     (case loop_function c of
        None \<Rightarrow> return inp
      | Some f \<Rightarrow>
          (case prev ls of
             None \<Rightarrow> return inp
           | Some p \<Rightarrow> variable_scope (ScopeName ''loop_function'') (Some True)
                        (return (f p i))))"

text \<open>The \<^verbatim>\<open>if prev_attn is not None: ... else: distract_output = a\<close> of the loop body.\<close>

definition distract_output :: "decoder_ctx \<Rightarrow> loop_state \<Rightarrow> tensor \<Rightarrow> tensor" where
  "distract_output c ls a =
     (case prev_attn ls of
        Some p \<Rightarrow> distract a p (gate_weight c) (gate_bias c)
      | None \<Rightarrow> a)"

text \<open>The body of \<^verbatim>\<open>for i, inp in enumerate(decoder_inputs)\<close>.\<close>

definition decoder_step :: "decoder_ctx \<Rightarrow> nat \<Rightarrow> tensor \<Rightarrow> loop_state \<Rightarrow> loop_state scoped" where
  "decoder_step c i inp0 ls =
     bindS (if i > 0 then reuse_variables else return ()) (\<lambda>_.
     bindS (next_input c i inp0 ls) (\<lambda>inp.
     bindS (lift (input_size (static_shape (fw c) inp))) (\<lambda>size.
     (case size of
        None \<Rightarrow> raise (ValueError ''Could not infer input size from input'')
      | Some n \<Rightarrow>
     bindS (lift (item (attns_state ls) 0)) (\<lambda>a.
     bindS (linear (fw c) [inp, distract_output c ls a] (IntC (int n))) (\<lambda>x'.
     bindS (call_cell (cell c) x' (state ls)) (\<lambda>(cell_output, state').
     bindS (if i = 0 \<and> initial_state_attention c
            then current_scope (Some True) (attend c state')
            else attend c state') (\<lambda>attns.
     bindS (variable_scope (ScopeName ''AttnOutputProjection'') None
              (linear (fw c) (cell_output # attns) (IntC (int (output_size c))))) (\<lambda>output.
     return (ls\<lparr>outputs := outputs ls @ [output],
                prev := (if loop_function c = None then prev ls else Some output),
                prev_attn := Some (distract_output c ls a),
                attns_state := attns,
                state := state',
                cell_input := Some x'\<rparr>))))))))))"

fun decoder_loop :: "decoder_ctx \<Rightarrow> nat \<Rightarrow> tensor list \<Rightarrow> loop_state \<Rightarrow> loop_state scoped" where
  "decoder_loop c i [] ls = return ls"
| "decoder_loop c i (inp # rest) ls =
     bindS (decoder_step c i inp ls) (\<lambda>ls'. decoder_loop c (Suc i) rest ls')"

record decoder_args =
  decoder_inputs :: "tensor list"
  initial_state :: tensor
  distract_initial_state :: tensor
  attention_states :: tensor
  attention_states_query :: tensor
  arg_cell :: rnn_cell
  distraction_cell :: rnn_cell
  arg_output_size :: "nat option"
  arg_num_heads :: int
  arg_loop_function :: "(tensor \<Rightarrow> nat \<Rightarrow> tensor) option"
  arg_scope :: "scope_arg option"
  arg_initial_state_attention :: bool

text \<open>Python's \<^verbatim>\<open>scope or "name"\<close>: \<^verbatim>\<open>None\<close> and the empty string are false.\<close>

definition scope_or :: "scope_arg option \<Rightarrow> string \<Rightarrow> scope_arg" where
  "scope_or scope default_name =
     (case scope of
        None \<Rightarrow> ScopeName default_name
      | Some (ScopeName n) \<Rightarrow> if n = [] then ScopeName default_name else ScopeName n
      | Some (ScopeObject n r) \<Rightarrow> ScopeObject n r)"

text \<open>The \<^verbatim>\<open>try\<close> block that creates the gate parameters, and its \<^verbatim>\<open>except\<close> branch.\<close>

definition gate_params :: "(variable \<times> variable) scoped" where
  "gate_params =
     current_scope None
       (except_ValueError
          (bindS (get_variable ''gate_weight'') (\<lambda>w.
           bindS (get_variable ''gate_bias'') (\<lambda>b. return (w, b))))
          (bindS reuse_variables (\<lambda>_.
           bindS (get_variable ''gate_weight'') (\<lambda>w.
           bindS (get_variable ''gate_bias'') (\<lambda>b. return (w, b))))))"

text \<open>The two loops \<^verbatim>\<open>for a in xrange(num_heads)\<close> that create the attention parameters.\<close>

definition attn_params :: "string \<Rightarrow> string \<Rightarrow> tensor \<Rightarrow> nat \<Rightarrow> (tensor \<times> tensor) scoped" where
  "attn_params w_name v_name hidden a =
     bindS (get_variable (w_name @ string_of_nat a)) (\<lambda>k.
     bindS (get_variable (v_name @ string_of_nat a)) (\<lambda>v.
       return (Conv2d hidden (Var k), Var v)))"

text \<open>
  The decoder from its \<^verbatim>\<open>with variable_scope\<close> block up to the decoding loop: the
  shapes, the parameters, the two attention functions' variables and the initial values
  of the loop's variables. \<open>size_state\<close> is \<^verbatim>\<open>attention_states.get_shape()[2].value\<close>,
  which the caller has checked; the helper \<^verbatim>\<open>shape\<close> of \<^verbatim>\<open>basics\<close> is taken to be the
  dynamic shape of its argument. The lists of zeros that initialise \<^verbatim>\<open>attns_query\<close> are
  never read and left out.
\<close>

definition decoder_setup ::
  "framework \<Rightarrow> decoder_args \<Rightarrow> nat \<Rightarrow> nat \<Rightarrow> (decoder_ctx \<times> loop_state) scoped" where
  "decoder_setup f args out_size size_state =
     bindS (lift (item (decoder_inputs args) 0)) (\<lambda>input0.
     (let batch_size = Index (ShapeOf input0) 0 in
     bindS (lift (dim_value (static_shape f (attention_states args)) 1)) (\<lambda>length_state.
     bindS (lift (dim_value (static_shape f (attention_states_query args)) 1)) (\<lambda>length_query.
     bindS (lift (dim_value (static_shape f (initial_state args)) 1)) (\<lambda>dim_1.
     bindS (get_variable ''Initial_State_W'') (\<lambda>project_initial_state_W.
     bindS (get_variable ''Initial_State_Bias'') (\<lambda>project_initial_state_B.
     (let length_state_t =
            (case length_state of
               None \<Rightarrow> Index (ShapeOf (attention_states args)) 1
             | Some n \<Rightarrow> IntC (int n));
          length_query_t =
            (case length_query of
               None \<Rightarrow> Index (ShapeOf (attention_states_query args)) 1
             | Some n \<Rightarrow> IntC (int n))
      in
     bindS (lift (dim_value (static_shape f (attention_states_query args)) 2)) (\<lambda>size_query.
     (let hidden = Reshape (attention_states args)
                     [IntC (- 1), length_state_t, IntC 1, dim_tensor size_query];
          hidden_query = Reshape (attention_states_query args)
                     [IntC (- 1), length_query_t, IntC 1, dim_tensor size_query]
      in
     bindS gate_params (\<lambda>(gate_w, gate_b).
     bindS (mapM (attn_params ''AttnW_State_'' ''AttnV_State_'' hidden)
              [0..<nat (arg_num_heads args)]) (\<lambda>state_params.
     bindS (mapM (attn_params ''AttnW_Query_'' ''AttnV_Query_'' hidden_query)
              [0..<nat (arg_num_heads args)]) (\<lambda>query_params.
     (let c = \<lparr>fw = f, cell = arg_cell args, num_heads = nat (arg_num_heads args),
                loop_function = arg_loop_function args,
                initial_state_attention = arg_initial_state_attention args,
                output_size = out_size,
                attn_length_state = length_state_t,
                attn_length_query = length_query_t,
                attn_size_state = size_state,
                attn_size_query = size_query,
                hidden_states = hidden,
                hidden_states_query = hidden_query,
                hidden_features_states = map fst state_params,
                hidden_features_query = map fst query_params,
                v_state = map snd state_params,
                v_query = map snd query_params,
                gate_weight = Var gate_w,
                gate_bias = Var gate_b\<rparr>;
          state0 = Add (MatMul (initial_state args) (Var project_initial_state_W))
                       (Var project_initial_state_B);
          batch_attn_size_state = Pack [batch_size, IntC (int size_state)];
          zeros = replicate (nat (arg_num_heads args)) (Zeros batch_attn_size_state Float32)
      in
     bindS (if arg_initial_state_attention args then attend c (initial_state args)
            else return zeros) (\<lambda>attns.
     return (c, \<lparr>outputs = [], prev = None, prev_attn = None, attns_state = attns,
                  state = state0, cell_input = None\<rparr>))))))))))))))))"

definition decoder :: "framework \<Rightarrow> decoder_args \<Rightarrow> (tensor list \<times> tensor) scoped" where
  "decoder f args =
     (if decoder_inputs args = []
      then raise (ValueError ''Must provide at least 1 input to attention decoder.'')
      else if arg_num_heads args < 1
      then raise (ValueError ''With less than 1 heads, use a non-attention decoder.'')
      else
        bindS (lift (dim_value (static_shape f (attention_states args)) 2)) (\<lambda>size_state.
        (case size_state of
           None \<Rightarrow> raise (ValueError ''Shape[2] of attention_states must be known'')
         | Some attn_size \<Rightarrow>
             (let out_size = (case arg_output_size args of
                                None \<Rightarrow> cell_output_size (arg_cell args)
                              | Some n \<Rightarrow> n)
              in variable_scope
                   (scope_or (arg_scope args) ''dynamic_simple_soft_distraction_decoder'') None
                   (bindS (decoder_setup f args out_size attn_size) (\<lambda>(c, ls0).
                    bindS (decoder_loop c 0 (decoder_inputs args) ls0) (\<lambda>ls.
                    return (outputs ls, state ls))))))))"

definition matrix_of :: "nat \<Rightarrow> nat \<Rightarrow> (nat \<Rightarrow> nat \<Rightarrow> real) \<Rightarrow> real list list" where
  "matrix_of r c f = map (\<lambda>i. map (f i) [0..<c]) [0..<r]"

definition vector_of :: "nat \<Rightarrow> (nat \<Rightarrow> real) \<Rightarrow> real list" where
  "vector_of n f = map f [0..<n]"

text \<open>
  \<open>traces m names\<close>: whenever \<open>m\<close> returns, it has left the current scope as it was, has
  kept every variable of the store, has created none if \<^verbatim>\<open>reuse\<close> was on, and has
  obtained from \<^verbatim>\<open>get_variable\<close> exactly the variables that the final store holds
  under \<open>names\<close> (full names, given the current scope's name), in that order.
\<close>

definition traces :: "'a scoped \<Rightarrow> (string \<Rightarrow> string list) \<Rightarrow> bool" where
  "traces m names =
     (\<forall>s r s'. m s = (Inr r, s') \<longrightarrow>
        scope_name s' = scope_name s \<and> reuse s' = reuse s
      \<and> (\<forall>n v. map_of (store s) n = Some v \<longrightarrow> map_of (store s') n = Some v)
      \<and> (reuse s \<longrightarrow> store s' = store s)
      \<and> (\<exists>vs. fetched s' = fetched s @ vs
              \<and> map (map_of (store s')) (names (scope_name s)) = map Some vs))"

section \<open>Properties of the sequence losses\<close>

lemma log_perp_loop_map:
  "log_perp_loop slf zs acc = acc @ map (\<lambda>(l, t, w). Mul (crossent slf l t) w) zs"
  by (induction zs arbitrary: acc) auto

lemma add_n_Inr: "inputs \<noteq> [] \<Longrightarrow> add_n inputs = Inr (AddN inputs)"
  by (simp add: add_n_def)

lemma zip3_map_nth:
  assumes "length ys = length xs" "length zs = length xs"
  shows "map (\<lambda>(x, y, z). f x y z) (zip xs (zip ys zs)) = map (\<lambda>i. f (xs ! i) (ys ! i) (zs ! i)) [0..<length xs]"
  using assms by (intro nth_equalityI) auto


lemma val_add_n_vecs:
  assumes "vs \<noteq> []" "\<forall>v\<in>set vs. length v = B"
  shows "val_add_n (map (\<lambda>v. Some (Vec v)) vs) = Some (Vec (col_sums B vs))"
  using assms
proof (induction vs rule: list_nonempty_induct)
  case (single v)
  then show ?case by (auto simp: col_sums_def intro!: nth_equalityI)
next
  case (cons v vs)
  then have IH: "val_add_n (map (\<lambda>v. Some (Vec v)) vs) = Some (Vec (col_sums B vs))" by simp
  obtain w ws where vs: "vs = w # ws" using cons.hyps by (cases vs) auto
  have "val_add_n (map (\<lambda>v. Some (Vec v)) (v # vs)) = bop (+) (Vec v) (Vec (col_sums B vs))"
    using IH cons.prems unfolding vs by (simp add: col_sums_def)
  also have "\<dots> = Some (Vec (map2 (+) v (col_sums B vs)))"
    using cons.prems by (simp add: vbop_def col_sums_def)
  also have "map2 (+) v (col_sums B vs) = col_sums B (v # vs)"
    using cons.prems 
    by (auto simp: col_sums_def sum.lessThan_Suc_shift simp del: sum.lessThan_Suc intro!: nth_equalityI)
  finally show ?case .
qed


lemma eval_mul_vecs:
  assumes "eval \<rho> a = Some (Vec c)" "eval \<rho> b = Some (Vec w)" "length c = length w"
  shows "eval \<rho> (Mul a b) = Some (Vec (map2 (*) c w))"
  using assms by (simp add: opt2_def vbop_def)

lemma val_div_vecs:
  assumes "length s = length d" "0 \<notin> set d"
  shows "val_div (Vec s) (Vec d) = Some (Vec (map2 (/) s d))"
  using assms by (simp add: val_div_def vbop_def)


lemma eval_binop_Some:
  assumes "eval \<rho> a = Some x" "eval \<rho> b = Some y"
  shows "eval \<rho> (Div a b) = val_div x y" "eval \<rho> (Mul a b) = bop (*) x y"
    "eval \<rho> (Add a b) = bop (+) x y" "eval \<rho> (Sub a b) = bop (-) x y"
  using assms by (simp_all add: opt2_def)

lemma col_sums_map:
  "col_sums B (map f [0..<n]) = map (\<lambda>b. \<Sum>t<n. f t ! b) [0..<B]"
  by (simp add: col_sums_def)

lemma eval_add_n_vecs:
  assumes "n > 0" "\<forall>t<n. eval \<rho> (ts ! t) = Some (Vec (f t)) \<and> length (f t) = B" "length ts = n"
  shows "eval \<rho> (AddN ts) = Some (Vec (map (\<lambda>b. \<Sum>t<n. f t ! b) [0..<B]))"
proof -
  have "map (eval \<rho>) ts = map (\<lambda>v. Some (Vec v)) (map f [0..<n])"
    using assms by (intro nth_equalityI) auto
  moreover have "val_add_n (map (\<lambda>v. Some (Vec v)) (map f [0..<n])) = Some (Vec (col_sums B (map f [0..<n])))"
    using assms by (intro val_add_n_vecs) auto
  ultimately show ?thesis by (simp add: col_sums_map)
qed

lemma sequence_loss_by_example_graph:
  assumes "length targets = length logits" "length weights = length logits" "logits \<noteq> []"
  shows "sequence_loss_by_example logits targets weights avg slf =
     Inr (let s = AddN (map (\<lambda>t. Mul (crossent slf (logits ! t) (targets ! t)) (weights ! t)) [0..<length logits])
          in if avg then Div s (Add (AddN weights) (FloatC loss_eps)) else s)"
proof -
  have "log_perp_loop slf (zip logits (zip targets weights)) [] =
        map (\<lambda>t. Mul (crossent slf (logits ! t) (targets ! t)) (weights ! t)) [0..<length logits]"
    using assms zip3_map_nth[of targets logits weights "\<lambda>l t w. Mul (crossent slf l t) w"]
    by (simp add: log_perp_loop_map)
  moreover have "weights \<noteq> []" using assms by auto
  ultimately show ?thesis using assms
    by (simp add: sequence_loss_by_example_def add_n_def Let_def)
qed

text \<open>
  Claim C3, for non-empty lists. With lists of one length \<open>n > 0\<close>,
  \<^verbatim>\<open>sequence_loss_by_example\<close> returns the graph
  \<^verbatim>\<open>add_n([crossent_t * weight_t])\<close>, divided by \<^verbatim>\<open>add_n(weights) + 1e-12\<close> when
  \<^verbatim>\<open>average_across_timesteps\<close> is set, where \<^verbatim>\<open>crossent_t\<close> is the sparse softmax
  cross-entropy node of step \<open>t\<close> or the caller's loss function applied to it. Run
  on batch-sized vectors (cross-entropies \<open>c t\<close>, weights \<open>w t\<close>, batch size \<open>B\<close>)
  the graph yields, for each example \<open>b\<close>, the sum over the time steps of
  \<open>c t ! b * w t ! b\<close>, divided by the example's total weight plus \<open>1e-12\<close> when
  averaging. (A division has a value only where its denominator is not zero.)
\<close>

theorem sequence_loss_by_example_weighted_sum:
  assumes len: "length targets = length logits" "length weights = length logits"
    and ne: "logits \<noteq> []"
    and ce: "\<forall>t<length logits. eval \<rho> (crossent slf (logits ! t) (targets ! t)) = Some (Vec (c t)) \<and> length (c t) = B"
    and we: "\<forall>t<length logits. eval \<rho> (weights ! t) = Some (Vec (w t)) \<and> length (w t) = B"
    and den: "avg \<longrightarrow> (\<forall>b<B. (\<Sum>t<length logits. w t ! b) + loss_eps \<noteq> 0)"
  shows "\<exists>lp. sequence_loss_by_example logits targets weights avg slf = Inr lp \<and>
           lp = (let s = AddN (map (\<lambda>t. Mul (crossent slf (logits ! t) (targets ! t)) (weights ! t)) [0..<length logits])
                 in if avg then Div s (Add (AddN weights) (FloatC loss_eps)) else s) \<and>
           eval \<rho> lp = Some (Vec (map (\<lambda>b.
               if avg then (\<Sum>t<length logits. c t ! b * w t ! b) / ((\<Sum>t<length logits. w t ! b) + loss_eps)
               else (\<Sum>t<length logits. c t ! b * w t ! b)) [0..<B]))"
proof -
  let ?n = "length logits"
  let ?lps = "map (\<lambda>t. Mul (crossent slf (logits ! t) (targets ! t)) (weights ! t)) [0..<?n]"
  have n: "?n > 0" using ne by simp
  have "\<forall>t<?n. eval \<rho> (?lps ! t) = Some (Vec (map2 (*) (c t) (w t))) \<and> length (map2 (*) (c t) (w t)) = B"
    using ce we by (auto simp: opt2_def vbop_def)
  then have num: "eval \<rho> (AddN ?lps) = Some (Vec (map (\<lambda>b. \<Sum>t<?n. map2 (*) (c t) (w t) ! b) [0..<B]))"
    using n by (intro eval_add_n_vecs) auto
  have "\<And>b. b < B \<Longrightarrow> (\<Sum>t<?n. map2 (*) (c t) (w t) ! b) = (\<Sum>t<?n. c t ! b * w t ! b)"
    using ce we by (intro sum.cong) auto
  then have num': "eval \<rho> (AddN ?lps) = Some (Vec (map (\<lambda>b. \<Sum>t<?n. c t ! b * w t ! b) [0..<B]))"
    using num by simp
  have tot: "eval \<rho> (AddN weights) = Some (Vec (map (\<lambda>b. \<Sum>t<?n. w t ! b) [0..<B]))"
    using n we len by (intro eval_add_n_vecs) auto
  have g: "sequence_loss_by_example logits targets weights avg slf =
     Inr (let s = AddN ?lps in if avg then Div s (Add (AddN weights) (FloatC loss_eps)) else s)"
    using len ne by (rule sequence_loss_by_example_graph)
  show ?thesis
  proof (cases avg)
    case False
    then show ?thesis using g num' by (simp add: Let_def)
  next
    case True
    have d: "eval \<rho> (Add (AddN weights) (FloatC loss_eps)) = Some (Vec (map (\<lambda>b. (\<Sum>t<?n. w t ! b) + loss_eps) [0..<B]))"
      using tot by (simp add: opt2_def comp_def)
    have nz: "0 \<notin> set (map (\<lambda>b. (\<Sum>t<?n. w t ! b) + loss_eps) [0..<B])"
      using den True by auto
    have "eval \<rho> (Div (AddN ?lps) (Add (AddN weights) (FloatC loss_eps))) =
       Some (Vec (map2 (/) (map (\<lambda>b. \<Sum>t<?n. c t ! b * w t ! b) [0..<B]) (map (\<lambda>b. (\<Sum>t<?n. w t ! b) + loss_eps) [0..<B])))"
      using nz by (simp only: eval_binop_Some[OF num' d]) (simp add: val_div_vecs)
    also have "map2 (/) (map (\<lambda>b. \<Sum>t<?n. c t ! b * w t ! b) [0..<B]) (map (\<lambda>b. (\<Sum>t<?n. w t ! b) + loss_eps) [0..<B])
       = map (\<lambda>b. (\<Sum>t<?n. c t ! b * w t ! b) / ((\<Sum>t<?n. w t ! b) + loss_eps)) [0..<B]"
      by (intro nth_equalityI) auto
    finally show ?thesis using g True by (simp add: Let_def)
  qed
qed



theorem sequence_loss_by_example_weighted_sum_witness:
  "\<exists>lp. sequence_loss_by_example [Placeholder ''logit0'', Placeholder ''logit1'']
          [Placeholder ''target0'', Placeholder ''target1'']
          [Placeholder ''weight0'', Placeholder ''weight1''] True None = Inr lp \<and>
        eval example_env lp = Some (Vec [4 / (2 + loss_eps), 2 / (1 + loss_eps)])"
proof -
  let ?c = "\<lambda>t::nat. if t = 0 then [1, 2::real] else [3, 4]"
  let ?w = "\<lambda>t::nat. if t = 0 then [1, 1::real] else [1, 0]"
  have pos: "loss_eps > 0" by (simp add: loss_eps_def)
  have two: "\<And>P. (\<forall>t<2::nat. P t) = (P 0 \<and> P 1)"
    by (auto simp: less_Suc_eq numeral_2_eq_2)
  have s2: "\<And>f::nat \<Rightarrow> real. (\<Sum>t<2. f t) = f 0 + f 1"
    by (simp add: numeral_2_eq_2)
  have "\<exists>lp. sequence_loss_by_example [Placeholder ''logit0'', Placeholder ''logit1'']
          [Placeholder ''target0'', Placeholder ''target1'']
          [Placeholder ''weight0'', Placeholder ''weight1''] True None = Inr lp \<and>
          lp = (let s = AddN (map (\<lambda>t. Mul (crossent None ([Placeholder ''logit0'', Placeholder ''logit1''] ! t) ([Placeholder ''target0'', Placeholder ''target1''] ! t)) ([Placeholder ''weight0'', Placeholder ''weight1''] ! t)) [0..<length [Placeholder ''logit0'', Placeholder ''logit1'']])
                 in if True then Div s (Add (AddN [Placeholder ''weight0'', Placeholder ''weight1'']) (FloatC loss_eps)) else s) \<and>
        eval example_env lp = Some (Vec (map (\<lambda>b.
               if True then (\<Sum>t<length [Placeholder ''logit0'', Placeholder ''logit1'']. ?c t ! b * ?w t ! b) / ((\<Sum>t<length [Placeholder ''logit0'', Placeholder ''logit1'']. ?w t ! b) + loss_eps)
               else (\<Sum>t<length [Placeholder ''logit0'', Placeholder ''logit1'']. ?c t ! b * ?w t ! b)) [0..<2]))"
    by (rule sequence_loss_by_example_weighted_sum)
       (use pos in \<open>simp_all add: All_less_Suc two crossent_def example_env_def\<close>)
  then show ?thesis
    by (simp add: s2 upt_rec numeral_2_eq_2)
qed

text \<open>
  With three empty lists the lengths agree, but \<^verbatim>\<open>log_perp_list\<close> stays empty and
  \<^verbatim>\<open>add_n\<close> rejects it: no loss tensor is returned.
\<close>

theorem sequence_loss_by_example_empty_lists:
  "sequence_loss_by_example [] [] [] False None
     = Inl (ValueError ''inputs must be a list of at least one Tensor'')"
  by (simp add: sequence_loss_by_example_def add_n_def)

text \<open>
  Claim C8, amended for the empty lists. The length check of
  \<^verbatim>\<open>sequence_loss_by_example\<close> raises its \<^verbatim>\<open>ValueError\<close> exactly when
  \<^verbatim>\<open>len(targets)\<close> or \<^verbatim>\<open>len(weights)\<close> differs from \<^verbatim>\<open>len(logits)\<close>; the call
  raises some \<^verbatim>\<open>ValueError\<close> exactly when the lengths differ or the lists are empty;
  with non-empty lists of one length the loss tensor is returned.
\<close>

theorem sequence_loss_by_example_value_error:
  "(sequence_loss_by_example logits targets weights avg slf
      = Inl (ValueError ''Lengths of logits, weights, and targets must be the same'')
    \<longleftrightarrow> (length targets \<noteq> length logits \<or> length weights \<noteq> length logits))
   \<and> ((\<exists>m. sequence_loss_by_example logits targets weights avg slf = Inl (ValueError m))
    \<longleftrightarrow> (length targets \<noteq> length logits \<or> length weights \<noteq> length logits \<or> logits = []))
   \<and> (length targets = length logits \<and> length weights = length logits \<and> logits \<noteq> []
    \<longrightarrow> (\<exists>lp. sequence_loss_by_example logits targets weights avg slf = Inr lp))"
proof (cases "length targets \<noteq> length logits \<or> length weights \<noteq> length logits")
  case True
  then show ?thesis by (auto simp: sequence_loss_by_example_def)
next
  case eq: False
  show ?thesis
  proof (cases "logits = []")
    case True
    then show ?thesis using eq by (simp add: sequence_loss_by_example_def add_n_def)
  next
    case False
    then show ?thesis using eq
      by (simp add: sequence_loss_by_example_graph Let_def)
  qed
qed

theorem sequence_loss_by_example_value_error_witness:
  "(\<exists>m. sequence_loss_by_example [Placeholder ''logit0''] [] [Placeholder ''weight0''] True None
          = Inl (ValueError m))
   \<and> (\<exists>lp. sequence_loss_by_example [Placeholder ''logit0''] [Placeholder ''target0'']
          [Placeholder ''weight0''] True None = Inr lp)"
  using sequence_loss_by_example_value_error
          [of "[Placeholder ''logit0'']" "[]" "[Placeholder ''weight0'']" True None]
        sequence_loss_by_example_value_error
          [of "[Placeholder ''logit0'']" "[Placeholder ''target0'']" "[Placeholder ''weight0'']" True None]
  by simp

text \<open>
  The three empty lists have equal lengths, and the call still raises a
  \<^verbatim>\<open>ValueError\<close>: the one of \<^verbatim>\<open>add_n\<close> on the empty \<^verbatim>\<open>log_perp_list\<close>.
\<close>

theorem sequence_loss_by_example_empty_raises:
  "length ([] :: tensor list) = length ([] :: tensor list)
   \<and> sequence_loss_by_example [] [] [] True None
       = Inl (ValueError ''inputs must be a list of at least one Tensor'')"
  by (simp add: sequence_loss_by_example_def add_n_def)

lemma sequence_loss_by_example_Inr_nonempty:
  assumes "sequence_loss_by_example logits targets weights avg slf = Inr lp"
  shows "targets \<noteq> []"
  using assms
  by (auto simp: sequence_loss_by_example_def add_n_def split: if_splits)

text \<open>
  Claim C4. \<^verbatim>\<open>sequence_loss\<close> is \<^verbatim>\<open>reduce_sum\<close> of the tensor that
  \<^verbatim>\<open>sequence_loss_by_example\<close> returns for the same arguments (an exception of the
  latter is passed on), divided by \<^verbatim>\<open>cast(shape(targets[0])[0], float32)\<close> when
  \<^verbatim>\<open>average_across_batch\<close> is set; \<^verbatim>\<open>targets[0]\<close> exists whenever the per-example
  loss was built. Run on a per-example vector \<open>v\<close> and a non-empty batch, the graph
  yields the sum of \<open>v\<close>, divided by the batch size when averaging.
\<close>

theorem sequence_loss_batch_average:
  "sequence_loss logits targets weights avg avg_batch slf =
     (case sequence_loss_by_example logits targets weights avg slf of
        Inl e \<Rightarrow> Inl e
      | Inr lp \<Rightarrow>
          Inr (if avg_batch
               then Div (ReduceSum lp None) (Cast (Index (ShapeOf (hd targets)) 0) Float32)
               else ReduceSum lp None))
   \<and> (sequence_loss_by_example logits targets weights avg slf = Inr lp
        \<and> eval \<rho> lp = Some (Vec v) \<and> eval \<rho> (hd targets) = Some (Vec tg) \<and> tg \<noteq> []
      \<longrightarrow> (\<exists>loss. sequence_loss logits targets weights avg avg_batch slf = Inr loss
            \<and> eval \<rho> loss
                = Some (Sc (if avg_batch then sum_list v / real (length tg) else sum_list v))))"
proof -
  have A: "sequence_loss logits targets weights avg avg_batch slf =
     (case sequence_loss_by_example logits targets weights avg slf of
        Inl e \<Rightarrow> Inl e
      | Inr lp \<Rightarrow>
          Inr (if avg_batch
               then Div (ReduceSum lp None) (Cast (Index (ShapeOf (hd targets)) 0) Float32)
               else ReduceSum lp None))"
  proof (cases "sequence_loss_by_example logits targets weights avg slf")
    case (Inl e)
    then show ?thesis by (simp add: sequence_loss_def)
  next
    case (Inr lp)
    then obtain t ts where "targets = t # ts"
      using sequence_loss_by_example_Inr_nonempty[OF Inr] by (cases targets) auto
    then show ?thesis using Inr by (simp add: sequence_loss_def first_item_def Let_def)
  qed
  have B: "\<exists>loss. sequence_loss logits targets weights avg avg_batch slf = Inr loss
            \<and> eval \<rho> loss
                = Some (Sc (if avg_batch then sum_list v / real (length tg) else sum_list v))"
    if h: "sequence_loss_by_example logits targets weights avg slf = Inr lp"
      "eval \<rho> lp = Some (Vec v)" "eval \<rho> (hd targets) = Some (Vec tg)" "tg \<noteq> []"
  proof -
    have "eval \<rho> (ReduceSum lp None) = Some (Sc (sum_list v))" using h by simp
    moreover have "eval \<rho> (Cast (Index (ShapeOf (hd targets)) 0) Float32) = Some (Sc (real (length tg)))"
      using h by simp
    ultimately have "eval \<rho> (Div (ReduceSum lp None) (Cast (Index (ShapeOf (hd targets)) 0) Float32))
        = Some (Sc (sum_list v / real (length tg)))"
      using h(4) by (simp only: eval_binop_Some) (simp add: val_div_def)
    then show ?thesis using A h by simp
  qed
  show ?thesis using A B by blast
qed

theorem sequence_loss_batch_average_witness:
  "\<exists>loss. sequence_loss [Placeholder ''logit0'', Placeholder ''logit1'']
          [Placeholder ''target0'', Placeholder ''target1'']
          [Placeholder ''weight0'', Placeholder ''weight1''] False True None = Inr loss
     \<and> eval example_env loss = Some (Sc 3)"
proof -
  obtain lp where lp: "sequence_loss_by_example [Placeholder ''logit0'', Placeholder ''logit1'']
          [Placeholder ''target0'', Placeholder ''target1'']
          [Placeholder ''weight0'', Placeholder ''weight1''] False None = Inr lp"
     and lpv: "lp = AddN [Mul (SparseSoftmaxCE (Placeholder ''logit0'') (Reshape (Placeholder ''target0'') [IntC (- 1)])) (Placeholder ''weight0''),
                       Mul (SparseSoftmaxCE (Placeholder ''logit1'') (Reshape (Placeholder ''target1'') [IntC (- 1)])) (Placeholder ''weight1'')]"
    by (simp add: sequence_loss_by_example_def add_n_def crossent_def)
  have ev: "eval example_env lp = Some (Vec [4, 2])"
    by (simp add: lpv example_env_def opt2_def vbop_def)
  have tg: "eval example_env (hd [Placeholder ''target0'', Placeholder ''target1'']) = Some (Vec [5, 7])"
    by (simp add: example_env_def)
  show ?thesis
    using sequence_loss_batch_average
      [of "[Placeholder ''logit0'', Placeholder ''logit1'']"
          "[Placeholder ''target0'', Placeholder ''target1'']"
          "[Placeholder ''weight0'', Placeholder ''weight1'']" False True None lp example_env
          "[4, 2]" "[5, 7]"] lp ev tg
    by (simp add: opt2_def val_div_def)
qed

lemma bindS_Inr_iff:
  "bindS m f s = (Inr y, s') \<longleftrightarrow> (\<exists>v s1. m s = (Inr v, s1) \<and> f v s1 = (Inr y, s'))"
  by (auto simp: bindS_def split: prod.splits sum.splits)

lemma bindS_Inl_iff:
  "bindS m f s = (Inl e, s') \<longleftrightarrow>
     (m s = (Inl e, s') \<or> (\<exists>v s1. m s = (Inr v, s1) \<and> f v s1 = (Inl e, s')))"
  by (auto simp: bindS_def split: prod.splits sum.splits)

lemmas scoped_simps = return_def raise_def lift_def

lemma linear_Inr:
  assumes "linear f args sz s = (Inr t, s')"
  shows "\<exists>vs. t = linear_build f vs args sz"
  using assms by (auto simp: linear_def bindS_Inr_iff scoped_simps)

lemma variable_scope_return [simp]:
  "variable_scope sa ra (return v) s = (Inr v, s)"
  by (simp add: variable_scope_def scoped_simps split: scope_arg.splits)

lemma next_input_eq: "next_input c i inp ls = return (step_input c i inp ls)"
  by (auto simp: next_input_def step_input_def fun_eq_iff scoped_simps split: option.splits)

lemma decoder_step_Inr:
  assumes "decoder_step c i inp ls s = (Inr ls', s')"
  shows "\<exists>a vs n.
           item (attns_state ls) 0 = Inr a
         \<and> prev_attn ls' = Some (distract_output c ls a)
         \<and> cell_input ls' = Some (linear_build (fw c) vs
               [step_input c i inp ls, distract_output c ls a] (IntC (int n)))"
  using assms unfolding decoder_step_def next_input_eq
  by (auto simp: bindS_Inr_iff case_prod_beta scoped_simps split: option.splits dest!: linear_Inr)
     (intro exI, rule refl)

lemma those_map_Some: "those (map (\<lambda>x. Some (f x)) xs) = Some (map f xs)"
  by (induction xs) auto

lemma length_matrix_of [simp]: "length (matrix_of r c f) = r"
  by (simp add: matrix_of_def)

lemma length_vector_of [simp]: "length (vector_of n f) = n"
  by (simp add: vector_of_def)

lemma nth_matrix_of [simp]: "i < r \<Longrightarrow> matrix_of r c f ! i = vector_of c (f i)"
  by (simp add: matrix_of_def vector_of_def)

lemma nth_vector_of [simp]: "j < n \<Longrightarrow> vector_of n f ! j = f j"
  by (simp add: vector_of_def)

lemma vbop_vector_of:
  "vbop f (vector_of n g) (vector_of n h) = Some (vector_of n (\<lambda>j. f (g j) (h j)))"
  by (auto simp: vbop_def vector_of_def intro!: nth_equalityI)

lemma those_rows:
  assumes "\<And>i. i < r \<Longrightarrow> g i = Some (h i)"
  shows "those (map g [0..<r]) = Some (map h [0..<r])"
proof -
  have "map g [0..<r] = map (\<lambda>i. Some (h i)) [0..<r]"
    by (rule map_cong) (use assms in auto)
  then show ?thesis by (simp only: those_map_Some)
qed

lemma mbop_matrix_of:
  "mbop f (matrix_of r c g) (matrix_of r c h) = Some (matrix_of r c (\<lambda>i j. f (g i j) (h i j)))"
proof -
  have "map2 (vbop f) (matrix_of r c g) (matrix_of r c h)
      = map (\<lambda>i. vbop f (vector_of c (g i)) (vector_of c (h i))) [0..<r]"
    by (intro nth_equalityI) auto
  also have "those \<dots> = Some (map (\<lambda>i. vector_of c (\<lambda>j. f (g i j) (h i j))) [0..<r])"
    by (intro those_rows) (simp add: vbop_vector_of)
  finally show ?thesis by (simp add: mbop_def matrix_of_def vector_of_def)
qed

lemma rows_vbop_matrix_of:
  "those (map (\<lambda>row. vbop f row (vector_of c v)) (matrix_of r c g))
     = Some (matrix_of r c (\<lambda>i j. f (g i j) (v j)))"
proof -
  have "map (\<lambda>row. vbop f row (vector_of c v)) (matrix_of r c g)
      = map (\<lambda>i. vbop f (vector_of c (g i)) (vector_of c v)) [0..<r]"
    by (intro nth_equalityI) auto
  also have "those \<dots> = Some (map (\<lambda>i. vector_of c (\<lambda>j. f (g i j) (v j))) [0..<r])"
    by (intro those_rows) (simp add: vbop_vector_of)
  finally show ?thesis by (simp add: matrix_of_def vector_of_def)
qed

lemma sum_list_vector_of: "sum_list (vector_of n f) = (\<Sum>j<n. f j)"
  by (simp add: vector_of_def interv_sum_list_conv_sum_set_nat atLeast0LessThan)

lemma row_sums_matrix_of:
  "map sum_list (matrix_of r c g) = vector_of r (\<lambda>i. \<Sum>j<c. g i j)"
  by (intro nth_equalityI) (auto simp: sum_list_vector_of)

lemma transpose_matrix_of:
  assumes "0 < r"
  shows "transpose (matrix_of r c g) = matrix_of c r (\<lambda>j i. g i j)"
proof -
  have "transpose (matrix_of r c g)
     = map (\<lambda>i. map (\<lambda>j. matrix_of r c g ! j ! i) [0..<length (matrix_of r c g)]) [0..<c]"
    using assms by (intro transpose_rectangle) (auto simp: matrix_of_def)
  also have "\<dots> = matrix_of c r (\<lambda>j i. g i j)"
    by (intro nth_equalityI) (auto simp: matrix_of_def)
  finally show ?thesis .
qed

lemma dot_vector_of: "dot (vector_of n f) (vector_of n g) = (\<Sum>k<n. f k * g k)"
proof -
  have "map2 (*) (vector_of n f) (vector_of n g) = vector_of n (\<lambda>k. f k * g k)"
    by (intro nth_equalityI) auto
  then show ?thesis by (simp add: dot_def sum_list_vector_of)
qed

lemma rectangular_matrix_of [simp]: "rectangular r c (matrix_of r c g)"
  by (simp add: rectangular_def matrix_of_def list_all_iff)

lemma val_matmul_matrix_of:
  assumes "0 < k"
  shows "val_matmul (Mat (matrix_of r k g)) (Mat (matrix_of k c h))
       = Some (Mat (matrix_of r c (\<lambda>i j. \<Sum>l<k. g i l * h l j)))"
proof -
  have hd: "(case matrix_of k c h of [] \<Rightarrow> 0 | row # _ \<Rightarrow> length row) = c"
    using assms by (simp add: matrix_of_def upt_conv_Cons)
  have rows: "list_all (\<lambda>row. length row = length (matrix_of k c h)) (matrix_of r k g)"
    by (simp add: list_all_iff matrix_of_def)
  have "map (\<lambda>row. map (dot row) (transpose (matrix_of k c h))) (matrix_of r k g)
      = matrix_of r c (\<lambda>i j. \<Sum>l<k. g i l * h l j)"
    using assms by (intro nth_equalityI) (auto simp: transpose_matrix_of dot_vector_of)
  then show ?thesis using rows hd by simp
qed

lemma map_map_matrix_of:
  "map (map f) (matrix_of r c g) = matrix_of r c (\<lambda>i j. f (g i j))"
  by (simp add: matrix_of_def)

lemma map_vector_of: "map f (vector_of n g) = vector_of n (\<lambda>i. f (g i))"
  by (simp add: vector_of_def)

lemma eval_row_dots:
  assumes "eval \<rho> a = Some (Mat (matrix_of r c g))" "eval \<rho> b = Some (Mat (matrix_of r c h))"
  shows "eval \<rho> (ReduceSum (Mul a b) (Some [1])) = Some (Vec (vector_of r (\<lambda>i. \<Sum>j<c. g i j * h i j)))"
proof -
  have "eval \<rho> (Mul a b) = Some (Mat (matrix_of r c (\<lambda>i j. g i j * h i j)))"
    by (simp only: eval_binop_Some(2)[OF assms]) (simp add: mbop_matrix_of)
  then show ?thesis by (simp add: row_sums_matrix_of)
qed

lemma distract_eps_pos: "0 < distract_eps"
  by (simp add: distract_eps_def)

lemma gate_denominator_pos: "0 < (\<Sum>k<n. (f k :: real) * f k) + distract_eps"
proof -
  have "0 \<le> (\<Sum>k<n. f k * f k)" by (intro sum_nonneg) simp
  then show ?thesis using distract_eps_pos by linarith
qed

lemma eval_gate_denominator:
  assumes "eval \<rho> p = Some (Mat (matrix_of r c h))"
  shows "eval \<rho> (Add (ReduceSum (Mul p p) (Some [1])) (FloatC distract_eps))
         = Some (Vec (vector_of r (\<lambda>i. (\<Sum>j<c. h i j * h i j) + distract_eps)))"
proof -
  have "eval \<rho> (ReduceSum (Mul p p) (Some [1])) = Some (Vec (vector_of r (\<lambda>i. \<Sum>j<c. h i j * h i j)))"
    using assms assms by (rule eval_row_dots)
  moreover have "eval \<rho> (FloatC distract_eps) = Some (Sc distract_eps)" by simp
  ultimately show ?thesis
    by (simp only: eval_binop_Some(3)) (simp add: map_vector_of)
qed

lemma eval_gate_temp:
  assumes a: "eval \<rho> a = Some (Mat (matrix_of r c g))" and p: "eval \<rho> p = Some (Mat (matrix_of r c h))"
  shows "eval \<rho> (gate_temp a p)
         = Some (Vec (vector_of r (\<lambda>i. (\<Sum>j<c. g i j * h i j) / ((\<Sum>j<c. h i j * h i j) + distract_eps))))"
proof -
  let ?num = "vector_of r (\<lambda>i. \<Sum>j<c. g i j * h i j)"
  let ?den = "vector_of r (\<lambda>i. (\<Sum>j<c. h i j * h i j) + distract_eps)"
  have n: "eval \<rho> (ReduceSum (Mul a p) (Some [1])) = Some (Vec ?num)"
    using a p by (rule eval_row_dots)
  have d: "eval \<rho> (Add (ReduceSum (Mul p p) (Some [1])) (FloatC distract_eps)) = Some (Vec ?den)"
    using p by (rule eval_gate_denominator)
  have nz: "0 \<notin> set ?den"
    using gate_denominator_pos[of _ c] by (auto simp: vector_of_def) (metis less_irrefl)
  have "val_div (Vec ?num) (Vec ?den) = Some (Vec (map2 (/) ?num ?den))"
    using nz by (intro val_div_vecs) auto
  moreover have "map2 (/) ?num ?den
     = vector_of r (\<lambda>i. (\<Sum>j<c. g i j * h i j) / ((\<Sum>j<c. h i j * h i j) + distract_eps))"
    by (intro nth_equalityI) auto
  ultimately show ?thesis
    unfolding gate_temp_def by (simp only: eval_binop_Some(1)[OF n d])
qed

lemma eval_distract:
  assumes a: "eval \<rho> a = Some (Mat (matrix_of B S A))"
    and p: "eval \<rho> p = Some (Mat (matrix_of B S P))"
    and w: "eval \<rho> gw = Some (Mat (matrix_of S S W))"
    and b: "eval \<rho> gb = Some (Vec (vector_of S bias))"
    and pos: "0 < B" "0 < S"
  shows "eval \<rho> (distract a p gw gb) =
     Some (Mat (matrix_of B S (\<lambda>i j.
        A i j - P i j * (sigmoid ((\<Sum>k<S. P i k * W k j) + bias j)
                         * ((\<Sum>k<S. A i k * P i k) / ((\<Sum>k<S. P i k * P i k) + distract_eps))))))"
proof -
  let ?temp = "\<lambda>i. (\<Sum>k<S. A i k * P i k) / ((\<Sum>k<S. P i k * P i k) + distract_eps)"
  let ?gate = "\<lambda>i j. (\<Sum>k<S. P i k * W k j) + bias j"
  have temp: "eval \<rho> (gate_temp a p) = Some (Vec (vector_of B ?temp))"
    using a p by (rule eval_gate_temp)
  have mm: "eval \<rho> (MatMul p gw) = Some (Mat (matrix_of B S (\<lambda>i j. \<Sum>k<S. P i k * W k j)))"
    using p w pos by (simp add: opt2_def val_matmul_matrix_of del: val_matmul.simps)
  have gate: "eval \<rho> (Add (MatMul p gw) gb) = Some (Mat (matrix_of B S ?gate))"
    by (simp only: eval_binop_Some(3)[OF mm b]) (simp add: rows_vbop_matrix_of)
  have sg: "eval \<rho> (Sigmoid (Transpose (Add (MatMul p gw) gb)))
          = Some (Mat (matrix_of S B (\<lambda>j i. sigmoid (?gate i j))))"
    using pos by (simp only: eval.simps(13,14) gate) (simp add: transpose_matrix_of map_map_matrix_of)
  have m1: "eval \<rho> (Mul (Sigmoid (Transpose (Add (MatMul p gw) gb))) (gate_temp a p))
          = Some (Mat (matrix_of S B (\<lambda>j i. sigmoid (?gate i j) * ?temp i)))"
    by (simp only: eval_binop_Some(2)[OF sg temp]) (simp add: rows_vbop_matrix_of)
  have t1: "eval \<rho> (Transpose (Mul (Sigmoid (Transpose (Add (MatMul p gw) gb))) (gate_temp a p)))
          = Some (Mat (matrix_of B S (\<lambda>i j. sigmoid (?gate i j) * ?temp i)))"
    using pos by (simp only: eval.simps(13) m1) (simp add: transpose_matrix_of)
  have pm: "eval \<rho> (Mul p (Transpose (Mul (Sigmoid (Transpose (Add (MatMul p gw) gb))) (gate_temp a p))))
          = Some (Mat (matrix_of B S (\<lambda>i j. P i j * (sigmoid (?gate i j) * ?temp i))))"
    by (simp only: eval_binop_Some(2)[OF p t1]) (simp add: mbop_matrix_of)
  show ?thesis
    unfolding distract_def Let_def
    by (simp only: eval_binop_Some(4)[OF a pm]) (simp add: mbop_matrix_of)
qed

lemma weights_nonneg_sum:
  assumes "\<forall>t<n. length (w t) = B \<and> (\<forall>x\<in>set (w t). 0 \<le> (x::real))" "b < B"
  shows "0 \<le> (\<Sum>t<n. w t ! b)"
  using assms by (intro sum_nonneg) (auto simp: all_set_conv_all_nth)

text \<open>
  Claim C9, for the two divisions it names. In \<^verbatim>\<open>sequence_loss_by_example\<close> with
  averaging, the result is a division whose denominator \<^verbatim>\<open>add_n(weights) + 1e-12\<close>
  is positive at every example when no weight is negative (also when all are zero). In the
  distraction gate, the coefficient \<^verbatim>\<open>temp\<close> is a division whose denominator
  \<^verbatim>\<open>reduce_sum(prev_attn * prev_attn, 1) + eps\<close> is positive at every row, for every
  real matrix \<^verbatim>\<open>prev_attn\<close>.
\<close>

theorem named_divisions_guarded:
  "(length targets = length logits \<and> length weights = length logits \<and> logits \<noteq> []
      \<and> (\<forall>t<length logits. eval \<rho> (weights ! t) = Some (Vec (w t)) \<and> length (w t) = B
             \<and> (\<forall>x\<in>set (w t). 0 \<le> x))
    \<longrightarrow> (\<exists>num den d.
           sequence_loss_by_example logits targets weights True slf = Inr (Div num den)
         \<and> eval \<rho> den = Some (Vec d) \<and> length d = B \<and> (\<forall>x\<in>set d. 0 < x)))
   \<and> (eval \<rho> pa = Some (Mat (matrix_of r c P))
    \<longrightarrow> (\<exists>num den d.
           gate_temp a pa = Div num den
         \<and> eval \<rho> den = Some (Vec d) \<and> length d = r \<and> (\<forall>x\<in>set d. 0 < x)))"
proof (intro conjI impI)
  assume h: "length targets = length logits \<and> length weights = length logits \<and> logits \<noteq> []
      \<and> (\<forall>t<length logits. eval \<rho> (weights ! t) = Some (Vec (w t)) \<and> length (w t) = B
             \<and> (\<forall>x\<in>set (w t). 0 \<le> x))"
  let ?n = "length logits"
  let ?d = "map (\<lambda>b. (\<Sum>t<?n. w t ! b) + loss_eps) [0..<B]"
  have n: "0 < ?n" using h by simp
  have tot: "eval \<rho> (AddN weights) = Some (Vec (map (\<lambda>b. \<Sum>t<?n. w t ! b) [0..<B]))"
    using n h by (intro eval_add_n_vecs) auto
  have den: "eval \<rho> (Add (AddN weights) (FloatC loss_eps)) = Some (Vec ?d)"
    using tot by (simp add: opt2_def comp_def)
  have "0 < loss_eps" by (simp add: loss_eps_def)
  moreover have "\<And>b. b < B \<Longrightarrow> 0 \<le> (\<Sum>t<?n. w t ! b)"
    using h by (intro weights_nonneg_sum[of ?n w B]) auto
  ultimately have pos: "\<forall>x\<in>set ?d. 0 < x"
    by (auto intro: add_nonneg_pos)
  have "sequence_loss_by_example logits targets weights True slf
      = Inr (Div (AddN (map (\<lambda>t. Mul (crossent slf (logits ! t) (targets ! t)) (weights ! t)) [0..<?n]))
                 (Add (AddN weights) (FloatC loss_eps)))"
    using h by (simp add: sequence_loss_by_example_graph Let_def)
  then show "\<exists>num den d.
           sequence_loss_by_example logits targets weights True slf = Inr (Div num den)
         \<and> eval \<rho> den = Some (Vec d) \<and> length d = B \<and> (\<forall>x\<in>set d. 0 < x)"
    using den pos by (intro exI[of _ "AddN _"] exI[of _ "Add (AddN weights) (FloatC loss_eps)"] exI[of _ ?d]) simp
next
  assume p: "eval \<rho> pa = Some (Mat (matrix_of r c P))"
  let ?d = "vector_of r (\<lambda>i. (\<Sum>j<c. P i j * P i j) + distract_eps)"
  have den: "eval \<rho> (Add (ReduceSum (Mul pa pa) (Some [1])) (FloatC distract_eps)) = Some (Vec ?d)"
    using p by (rule eval_gate_denominator)
  have pos: "\<forall>x\<in>set ?d. 0 < x"
    using gate_denominator_pos[of _ c] by (auto simp: vector_of_def)
  show "\<exists>num den d.
           gate_temp a pa = Div num den
         \<and> eval \<rho> den = Some (Vec d) \<and> length d = r \<and> (\<forall>x\<in>set d. 0 < x)"
    unfolding gate_temp_def using den pos
    by (intro exI[of _ "ReduceSum (Mul a pa) (Some [1])"]
           exI[of _ "Add (ReduceSum (Mul pa pa) (Some [1])) (FloatC distract_eps)"]
           exI[of _ ?d]) simp
qed

theorem named_divisions_guarded_witness:
  "(\<exists>num den d.
      sequence_loss_by_example [Placeholder ''logit0'', Placeholder ''logit1'']
          [Placeholder ''target0'', Placeholder ''target1'']
          [Placeholder ''weight0'', Placeholder ''weight1''] True None = Inr (Div num den)
    \<and> eval example_env den = Some (Vec d) \<and> length d = 2 \<and> list_all (\<lambda>x. 0 < x) d)
   \<and> (\<exists>num den d.
      gate_temp (Placeholder ''weight0'') (Placeholder ''prev_attn0'') = Div num den
    \<and> eval (\<lambda>t. if t = Placeholder ''prev_attn0'' then Some (Mat [[0, 0], [0, 0]]) else None) den
         = Some (Vec d)
    \<and> length d = 2 \<and> list_all (\<lambda>x. 0 < x) d)"
proof -
  let ?w = "\<lambda>t::nat. if t = 0 then [1, 1::real] else [1, 0]"
  let ?env = "\<lambda>t. if t = Placeholder ''prev_attn0'' then Some (Mat [[0, 0], [0, 0]]) else None"
  have m: "[[0, 0], [0, 0::real]] = matrix_of 2 2 (\<lambda>i j. 0)"
    by (simp add: matrix_of_def upt_conv_Cons)
  note inst = named_divisions_guarded
     [where targets = "[Placeholder ''target0'', Placeholder ''target1'']"
        and logits = "[Placeholder ''logit0'', Placeholder ''logit1'']"
        and weights = "[Placeholder ''weight0'', Placeholder ''weight1'']"
        and w = ?w and B = 2 and slf = None and r = 2 and c = 2 and P = "\<lambda>i j. 0"
        and pa = "Placeholder ''prev_attn0''" and a = "Placeholder ''weight0''"]
  have A: "\<exists>num den d.
      sequence_loss_by_example [Placeholder ''logit0'', Placeholder ''logit1'']
          [Placeholder ''target0'', Placeholder ''target1'']
          [Placeholder ''weight0'', Placeholder ''weight1''] True None = Inr (Div num den)
    \<and> eval example_env den = Some (Vec d) \<and> length d = 2 \<and> (\<forall>x\<in>set d. 0 < x)"
    by (rule inst[where \<rho> = example_env, THEN conjunct1, THEN mp])
       (simp add: All_less_Suc example_env_def)
  have B: "\<exists>num den d.
      gate_temp (Placeholder ''weight0'') (Placeholder ''prev_attn0'') = Div num den
    \<and> eval ?env den = Some (Vec d) \<and> length d = 2 \<and> (\<forall>x\<in>set d. 0 < x)"
    by (rule inst[where \<rho> = ?env, THEN conjunct2, THEN mp]) (simp add: m)
  show ?thesis using A B by (simp add: list_all_iff)
qed

text \<open>
  The module builds a third division, \<^verbatim>\<open>cost / cast(batch_size, float32)\<close> in
  \<^verbatim>\<open>sequence_loss\<close>, with nothing added to its denominator: for a batch of no
  examples the denominator is zero.
\<close>

theorem sequence_loss_division_unguarded:
  "sequence_loss [Placeholder ''logit0''] [Placeholder ''target0''] [Placeholder ''weight0'']
       True True None
     = Inr (Div (ReduceSum
                   (Div (AddN [Mul (SparseSoftmaxCE (Placeholder ''logit0'')
                                      (Reshape (Placeholder ''target0'') [IntC (- 1)]))
                                   (Placeholder ''weight0'')])
                        (Add (AddN [Placeholder ''weight0'']) (FloatC loss_eps))) None)
                (Cast (Index (ShapeOf (Placeholder ''target0'')) 0) Float32))
   \<and> eval (\<lambda>t. if t = Placeholder ''target0'' then Some (Vec []) else None)
        (Cast (Index (ShapeOf (Placeholder ''target0'')) 0) Float32) = Some (Sc 0)"
  by (simp add: sequence_loss_def sequence_loss_by_example_def add_n_def crossent_def
        first_item_def)

lemma decoder_loop_append:
  "decoder_loop c i (xs @ ys) ls =
     bindS (decoder_loop c i xs ls) (\<lambda>ls'. decoder_loop c (i + length xs) ys ls')"
proof (induction xs arbitrary: i ls)
  case Nil
  show ?case by (simp add: bindS_def fun_eq_iff scoped_simps)
next
  case (Cons a xs)
  show ?case
    by (simp add: Cons.IH bindS_def fun_eq_iff scoped_simps split: prod.splits sum.splits)
qed

lemma decoder_loop_snoc:
  assumes "k < length xs"
  shows "decoder_loop c i (take (Suc k) xs) ls =
     bindS (decoder_loop c i (take k xs) ls) (\<lambda>ls'. decoder_step c (i + k) (xs ! k) ls')"
proof -
  have "take (Suc k) xs = take k xs @ [xs ! k]"
    using assms by (rule take_Suc_conv_app_nth)
  moreover have "\<And>j ls'. decoder_loop c j [xs ! k] ls' = decoder_step c j (xs ! k) ls'"
    by (simp add: bindS_def fun_eq_iff scoped_simps split: prod.splits sum.splits)
  ultimately show ?thesis using assms by (simp add: decoder_loop_append min_def)
qed

lemma decoder_loop_split:
  assumes "decoder_loop c i xs ls s = (Inr ls', s')" "k \<le> length xs"
  shows "\<exists>lsk sk. decoder_loop c i (take k xs) ls s = (Inr lsk, sk)
                \<and> decoder_loop c (i + k) (drop k xs) lsk sk = (Inr ls', s')"
proof -
  have "decoder_loop c i (take k xs @ drop k xs) ls s = (Inr ls', s')" using assms by simp
  then show ?thesis
    unfolding decoder_loop_append using assms(2)
    by (auto simp: bindS_Inr_iff min_def split: if_splits)
qed

lemma decoder_loop_step_at:
  assumes "decoder_loop c i xs ls s = (Inr ls', s')" "k < length xs"
  shows "\<exists>lsk sk lsk' sk'. decoder_loop c i (take k xs) ls s = (Inr lsk, sk)
            \<and> decoder_step c (i + k) (xs ! k) lsk sk = (Inr lsk', sk')
            \<and> decoder_loop c i (take (Suc k) xs) ls s = (Inr lsk', sk')"
proof -
  obtain l1 s1 where a: "decoder_loop c i (take (Suc k) xs) ls s = (Inr l1, s1)"
    using decoder_loop_split[OF assms(1), of "Suc k"] assms(2) by auto
  then show ?thesis
    unfolding decoder_loop_snoc[OF assms(2)] by (auto simp: bindS_Inr_iff)
qed

lemma decoder_step_prev_attn:
  assumes "decoder_step c i inp ls s = (Inr ls', s')"
  shows "prev_attn ls' \<noteq> None"
  using decoder_step_Inr[OF assms] by auto

lemma decoder_loop_prev_attn:
  assumes "decoder_loop c i xs ls s = (Inr ls', s')" "xs \<noteq> []"
  shows "prev_attn ls' \<noteq> None"
proof -
  have k: "length xs - 1 < length xs" using assms(2) by simp
  obtain lsk sk lsk' sk' where
    st: "decoder_step c (i + (length xs - 1)) (xs ! (length xs - 1)) lsk sk = (Inr lsk', sk')"
    and fin: "decoder_loop c i (take (Suc (length xs - 1)) xs) ls s = (Inr lsk', sk')"
    using decoder_loop_step_at[OF assms(1) k] by blast
  have "take (Suc (length xs - 1)) xs = xs" using assms(2) by simp
  then have "lsk' = ls'" using fin assms(1) by simp
  then show ?thesis using decoder_step_prev_attn[OF st] by simp
qed

lemma decoder_setup_prev_attn:
  assumes "decoder_setup f args out_size size_state s = (Inr (c, ls0), s0)"
  shows "prev_attn ls0 = None"
  using assms unfolding decoder_setup_def
  by (auto simp: bindS_Inr_iff Let_def case_prod_beta scoped_simps)

text \<open>
  Claim C1. In a call of the decoder that has come through its set-up and its first
  \<open>k\<close> decoding steps, step \<open>k\<close> passes to \<^verbatim>\<open>linear\<close>, next to the step's input, the
  vector \<^verbatim>\<open>distract_output\<close>, and leaves it in \<^verbatim>\<open>prev_attn\<close> for the next step. At the
  first step (\<open>k = 0\<close>) it is the current attention read \<^verbatim>\<open>a = attns_state[0]\<close>
  unchanged; at every later step \<^verbatim>\<open>prev_attn\<close> holds the previous step's
  \<^verbatim>\<open>distract_output\<close> \<open>p\<close>, and the vector is the gate graph \<open>distract a p\<close>. Run on
  real matrices (batch \<open>B\<close>, size \<open>S\<close>), that graph yields at row \<open>i\<close>, column \<open>j\<close>
  \<open>A i j - P i j * (sigmoid ((P W) i j + bias j) * (<A i, P i> / (<P i, P i> + 1e-14)))\<close>.
\<close>

theorem distraction_output_of_step:
  assumes su: "decoder_setup f args out_size size_state s_in = (Inr (c, ls0), s0)"
    and run: "decoder_loop c 0 (take k (decoder_inputs args)) ls0 s0 = (Inr ls, s)"
    and k: "k < length (decoder_inputs args)"
    and step: "decoder_step c k (decoder_inputs args ! k) ls s = (Inr ls', s')"
  shows "\<exists>a vs n.
           item (attns_state ls) 0 = Inr a
         \<and> cell_input ls' = Some (linear_build (fw c) vs
               [step_input c k (decoder_inputs args ! k) ls, distract_output c ls a]
               (IntC (int n)))
         \<and> prev_attn ls' = Some (distract_output c ls a)
         \<and> (k = 0 \<longrightarrow> distract_output c ls a = a)
         \<and> (0 < k \<longrightarrow> (\<exists>p. prev_attn ls = Some p
                \<and> distract_output c ls a = distract a p (gate_weight c) (gate_bias c)))
         \<and> (\<forall>\<rho> B S A P W bias p.
               prev_attn ls = Some p
             \<and> eval \<rho> a = Some (Mat (matrix_of B S A))
             \<and> eval \<rho> p = Some (Mat (matrix_of B S P))
             \<and> eval \<rho> (gate_weight c) = Some (Mat (matrix_of S S W))
             \<and> eval \<rho> (gate_bias c) = Some (Vec (vector_of S bias))
             \<and> 0 < B \<and> 0 < S
             \<longrightarrow> eval \<rho> (distract_output c ls a) =
                 Some (Mat (matrix_of B S (\<lambda>i j.
                   A i j - P i j * (sigmoid ((\<Sum>l<S. P i l * W l j) + bias j)
                     * ((\<Sum>l<S. A i l * P i l) / ((\<Sum>l<S. P i l * P i l) + distract_eps)))))))"
proof -
  obtain a vs n where a: "item (attns_state ls) 0 = Inr a"
    and pa: "prev_attn ls' = Some (distract_output c ls a)"
    and ci: "cell_input ls' = Some (linear_build (fw c) vs
               [step_input c k (decoder_inputs args ! k) ls, distract_output c ls a]
               (IntC (int n)))"
    using decoder_step_Inr[OF step] by blast
  have first: "distract_output c ls a = a" if "k = 0"
  proof -
    have "ls = ls0" using run that by (simp add: scoped_simps)
    then have "prev_attn ls = None" using decoder_setup_prev_attn[OF su] by simp
    then show ?thesis by (simp add: distract_output_def)
  qed
  have later: "\<exists>p. prev_attn ls = Some p
                \<and> distract_output c ls a = distract a p (gate_weight c) (gate_bias c)" if "0 < k"
  proof -
    have "take k (decoder_inputs args) \<noteq> []" using that k by auto
    then have "prev_attn ls \<noteq> None" using decoder_loop_prev_attn[OF run] by simp
    then obtain p where "prev_attn ls = Some p" by auto
    then show ?thesis by (simp add: distract_output_def)
  qed
  have sem: "eval \<rho> (distract_output c ls a) =
                 Some (Mat (matrix_of B S (\<lambda>i j.
                   A i j - P i j * (sigmoid ((\<Sum>l<S. P i l * W l j) + bias j)
                     * ((\<Sum>l<S. A i l * P i l) / ((\<Sum>l<S. P i l * P i l) + distract_eps))))))"
    if "prev_attn ls = Some p" "eval \<rho> a = Some (Mat (matrix_of B S A))"
       "eval \<rho> p = Some (Mat (matrix_of B S P))"
       "eval \<rho> (gate_weight c) = Some (Mat (matrix_of S S W))"
       "eval \<rho> (gate_bias c) = Some (Vec (vector_of S bias))" "0 < B" "0 < S"
    for \<rho> B S A P W bias p
    using that by (simp only: distract_output_def option.case eval_distract)
  show ?thesis
    using a pa ci first later sem by blast
qed

lemma tracesI:
  assumes "\<And>s r s'. m s = (Inr r, s') \<Longrightarrow>
        scope_name s' = scope_name s \<and> reuse s' = reuse s
      \<and> (\<forall>n v. map_of (store s) n = Some v \<longrightarrow> map_of (store s') n = Some v)
      \<and> (reuse s \<longrightarrow> store s' = store s)
      \<and> (\<exists>vs. fetched s' = fetched s @ vs
              \<and> map (map_of (store s')) (names (scope_name s)) = map Some vs)"
  shows "traces m names"
  using assms unfolding traces_def by blast

lemma tracesD:
  assumes "traces m names" "m s = (Inr r, s')"
  shows "scope_name s' = scope_name s" "reuse s' = reuse s"
    "\<And>n v. map_of (store s) n = Some v \<Longrightarrow> map_of (store s') n = Some v"
    "reuse s \<Longrightarrow> store s' = store s"
    "\<exists>vs. fetched s' = fetched s @ vs
              \<and> map (map_of (store s')) (names (scope_name s)) = map Some vs"
  using assms unfolding traces_def by blast+

lemma traces_return: "traces (return v) (\<lambda>sc. [])"
  by (rule tracesI) (auto simp: scoped_simps)

lemma traces_lift: "traces (lift v) (\<lambda>sc. [])"
  by (rule tracesI) (auto simp: scoped_simps)

lemma traces_raise: "traces (raise e) names"
  by (rule tracesI) (auto simp: scoped_simps)

lemma traces_weaken:
  assumes "traces m names" "\<And>sc. names' sc = names sc"
  shows "traces m names'"
  using assms unfolding traces_def by simp

lemma traces_get_variable: "traces (get_variable name) (\<lambda>sc. [full_name sc name])"
  by (rule tracesI) (auto simp: get_variable_def Let_def map_add_def split: option.splits if_splits)

lemma map_Some_stable:
  assumes "map f xs = map Some vs" "\<And>n v. f n = Some v \<Longrightarrow> g n = Some v"
  shows "map g xs = map Some vs"
proof -
  have "\<And>x. x \<in> set xs \<Longrightarrow> g x = f x"
  proof -
    fix x assume "x \<in> set xs"
    then have "f x \<in> set (map Some vs)" using assms(1) by (metis image_eqI set_map)
    then obtain v where "f x = Some v" by auto
    then show "g x = f x" using assms(2) by simp
  qed
  then have "map g xs = map f xs" by (intro map_cong) auto
  then show ?thesis using assms(1) by simp
qed

lemma traces_bind:
  assumes m: "traces m N" and f: "\<And>v. traces (f v) M"
  shows "traces (bindS m f) (\<lambda>sc. N sc @ M sc)"
proof (rule tracesI)
  fix s r s' assume "bindS m f s = (Inr r, s')"
  then obtain v s1 where a: "m s = (Inr v, s1)" and b: "f v s1 = (Inr r, s')"
    by (auto simp: bindS_Inr_iff)
  note A = tracesD[OF m a] and B = tracesD[OF f b]
  obtain vs1 where v1: "fetched s1 = fetched s @ vs1"
     "map (map_of (store s1)) (N (scope_name s)) = map Some vs1" using A(5) by blast
  obtain vs2 where v2: "fetched s' = fetched s1 @ vs2"
     "map (map_of (store s')) (M (scope_name s1)) = map Some vs2" using B(5) by blast
  have "map (map_of (store s')) (N (scope_name s)) = map Some vs1"
    using v1(2) B(3) by (rule map_Some_stable)
  then have "fetched s' = fetched s @ (vs1 @ vs2)
       \<and> map (map_of (store s')) (N (scope_name s) @ M (scope_name s)) = map Some (vs1 @ vs2)"
    using v1(1) v2 A(1) by simp
  then have "\<exists>vs. fetched s' = fetched s @ vs
       \<and> map (map_of (store s')) (N (scope_name s) @ M (scope_name s)) = map Some vs"
    by blast
  moreover have "reuse s \<longrightarrow> store s' = store s" using A(2,4) B(4) by auto
  ultimately show "scope_name s' = scope_name s \<and> reuse s' = reuse s
      \<and> (\<forall>n v. map_of (store s) n = Some v \<longrightarrow> map_of (store s') n = Some v)
      \<and> (reuse s \<longrightarrow> store s' = store s)
      \<and> (\<exists>vs. fetched s' = fetched s @ vs
              \<and> map (map_of (store s')) (N (scope_name s) @ M (scope_name s)) = map Some vs)"
    using A(1,2,3) B(1,2,3) by auto
qed

lemma traces_mapM:
  assumes "\<And>x. traces (f x) (N x)"
  shows "traces (mapM f xs) (\<lambda>sc. concat (map (\<lambda>x. N x sc) xs))"
proof (induction xs)
  case Nil
  show ?case using traces_return by simp
next
  case (Cons x xs)
  have "traces (bindS (mapM f xs) (\<lambda>ys. return (y # ys)))
          (\<lambda>sc. concat (map (\<lambda>x. N x sc) xs) @ [])" for y
    by (rule traces_bind[OF Cons.IH traces_return])
  then have "traces (bindS (f x) (\<lambda>y. bindS (mapM f xs) (\<lambda>ys. return (y # ys))))
          (\<lambda>sc. N x sc @ (concat (map (\<lambda>x. N x sc) xs) @ []))"
    by (rule traces_bind[OF assms])
  then show ?case by simp
qed

lemma traces_get_variables: "traces (get_variables names) (\<lambda>sc. map (full_name sc) names)"
proof -
  have "traces (mapM get_variable names) (\<lambda>sc. concat (map (\<lambda>x. [full_name sc x]) names))"
    by (rule traces_mapM) (rule traces_get_variable)
  moreover have "\<And>sc. concat (map (\<lambda>x. [full_name sc x]) names) = map (full_name sc) names"
    by (induction names) auto
  ultimately show ?thesis by (simp add: get_variables_def)
qed

lemma traces_variable_scope:
  assumes "traces body N"
  shows "traces (variable_scope (ScopeName n) ra body) (\<lambda>sc. N (full_name sc n))"
proof (rule tracesI)
  fix s r s' assume h: "variable_scope (ScopeName n) ra body s = (Inr r, s')"
  let ?si = "s\<lparr>scope_name := full_name (scope_name s) n, reuse := (ra = Some True \<or> reuse s)\<rparr>"
  obtain s1 where b: "body ?si = (Inr r, s1)"
    and s': "s' = s1\<lparr>scope_name := scope_name s, reuse := reuse s\<rparr>"
    using h by (auto simp: variable_scope_def split: prod.splits)
  note B = tracesD[OF assms b]
  show "scope_name s' = scope_name s \<and> reuse s' = reuse s
      \<and> (\<forall>n v. map_of (store s) n = Some v \<longrightarrow> map_of (store s') n = Some v)
      \<and> (reuse s \<longrightarrow> store s' = store s)
      \<and> (\<exists>vs. fetched s' = fetched s @ vs
              \<and> map (map_of (store s')) (N (full_name (scope_name s) n)) = map Some vs)"
    using B by (simp add: s')
qed

lemma traces_current_scope:
  assumes "traces body N" "ra \<noteq> Some False"
  shows "traces (current_scope ra body) N"
proof (rule tracesI)
  fix s r s' assume h: "current_scope ra body s = (Inr r, s')"
  let ?si = "s\<lparr>scope_name := scope_name s, reuse := (case ra of None \<Rightarrow> reuse s | Some b \<Rightarrow> b)\<rparr>"
  obtain s1 where b: "body ?si = (Inr r, s1)"
    and s': "s' = s1\<lparr>scope_name := scope_name s, reuse := reuse s\<rparr>"
    using h by (auto simp: current_scope_def variable_scope_def split: prod.splits)
  have ru: "reuse s \<Longrightarrow> reuse ?si" using assms(2) by (cases ra) auto
  note B = tracesD[OF assms(1) b]
  show "scope_name s' = scope_name s \<and> reuse s' = reuse s
      \<and> (\<forall>n v. map_of (store s) n = Some v \<longrightarrow> map_of (store s') n = Some v)
      \<and> (reuse s \<longrightarrow> store s' = store s)
      \<and> (\<exists>vs. fetched s' = fetched s @ vs
              \<and> map (map_of (store s')) (N (scope_name s)) = map Some vs)"
    using B ru by (simp add: s')
qed

lemma traces_if:
  assumes "traces a N" "traces b N"
  shows "traces (if P then a else b) N"
  using assms by simp

lemma traces_case_option:
  assumes "traces a N" "\<And>v. traces (b v) N"
  shows "traces (case u of None \<Rightarrow> a | Some v \<Rightarrow> b v) N"
  using assms by (cases u) auto

lemma traces_case_prod:
  assumes "\<And>a b. traces (f a b) N"
  shows "traces (case p of (a, b) \<Rightarrow> f a b) N"
  using assms by (cases p) auto

end
